theory Spec2Isabelle
  imports Complex_Main "HOL-Library.Log_Nat"
begin

unbundle bit_operations_syntax

section \<open>JavaScript numbers and strings\<close>

text \<open>
  A JavaScript string is a sequence of UTF-16 code units; \<open>charCodeAt\<close> reads one of
  them as a number. Numbers that stay integral and below \<open>2 ^ 53\<close> in magnitude are
  exact in IEEE doubles and are modelled as \<open>int\<close>.
\<close>

type_synonym jsstring = "nat list"

definition js :: "string \<Rightarrow> jsstring" where
  "js s = map of_char s"

definition ToInt32 :: "int \<Rightarrow> int" where
  "ToInt32 x = (x + 2 ^ 31) mod 2 ^ 32 - 2 ^ 31"

definition ToUint32 :: "int \<Rightarrow> int" where
  "ToUint32 x = x mod 2 ^ 32"

text \<open>\<open>x << n\<close>: the left operand as a signed 32-bit integer, shifted, read as signed again.\<close>

definition js_shl :: "int \<Rightarrow> nat \<Rightarrow> int" where
  "js_shl x n = ToInt32 (ToInt32 x * 2 ^ (n mod 32))"

text \<open>\<open>x >>> 0\<close>: the operand as an unsigned 32-bit integer.\<close>

definition js_ushr0 :: "int \<Rightarrow> int" where
  "js_ushr0 x = ToUint32 x"

text \<open>\<open>x & y\<close>: both operands as signed 32-bit integers, bitwise and.\<close>

definition js_and :: "int \<Rightarrow> int \<Rightarrow> int" where
  "js_and x y = ToInt32 x AND ToInt32 y"

text \<open>
  Numbers that do not stay integral are IEEE doubles. A finite double is a mantissa
  \<open>m\<close> and an exponent \<open>e\<close>, with value \<open>m * 2 ^ e\<close>. Each arithmetic operation
  gives the double nearest to the exact result, halves to the even mantissa, with 53
  bits of precision. Exponents are not bounded here: no result below overflows or is
  subnormal when the operands are whole numbers below \<open>2 ^ 53\<close> in magnitude, which
  doubles hold exactly.
\<close>

datatype double = Double int int

definition dval :: "double \<Rightarrow> real" where
  "dval x = (case x of Double m e \<Rightarrow> of_int m * 2 powi e)"

text \<open>The integer nearest to \<open>num / den\<close>, halves to the even one, for \<open>den > 0\<close>.\<close>

definition round_half_even :: "int \<Rightarrow> int \<Rightarrow> int" where
  "round_half_even num den =
     (let q = num div den; r = num mod den
      in if 2 * r < den then q
         else if den < 2 * r then q + 1
         else if even q then q else q + 1)"

text \<open>
  The double nearest to \<open>n / d\<close>, for \<open>d \<noteq> 0\<close>. With \<open>l\<close> the integer part of the
  binary logarithm of \<open>|n / d|\<close>, found from the bit lengths, the quotient scaled by
  \<open>2 ^ (52 - l)\<close> lies between \<open>2 ^ 52\<close> and \<open>2 ^ 53\<close> and is rounded to an integer.
\<close>

definition fl_ratio :: "int \<Rightarrow> int \<Rightarrow> double" where
  "fl_ratio n d =
     (if n = 0 then Double 0 0
      else
        let a = \<bar>n\<bar>; b = \<bar>d\<bar>;
            k = bitlen a - bitlen b;
            l = (if b * 2 ^ nat k \<le> a * 2 ^ nat (- k) then k else k - 1);
            e = l - 52;
            m = round_half_even (a * 2 ^ nat (- e)) (b * 2 ^ nat e)
        in Double (sgn n * sgn d * m) e)"

text \<open>\<open>x / y\<close> and \<open>x * y\<close> on doubles. A division by zero gives no finite double:
  \<open>None\<close>.\<close>

definition js_div :: "double \<Rightarrow> double \<Rightarrow> double option" where
  "js_div x y = (case (x, y) of (Double m1 e1, Double m2 e2) \<Rightarrow>
     if m2 = 0 then None
     else (case fl_ratio m1 m2 of Double m e \<Rightarrow> Some (Double m (e + e1 - e2))))"

definition js_mul :: "double \<Rightarrow> double \<Rightarrow> double" where
  "js_mul x y = (case (x, y) of (Double m1 e1, Double m2 e2) \<Rightarrow>
     (case fl_ratio (m1 * m2) 1 of Double m e \<Rightarrow> Double m (e + e1 + e2)))"

text \<open>
  Truthiness, as \<open>!x\<close>, \<open>x && y\<close> and \<open>x || d\<close> read it: an absent or null member,
  the number 0, the empty string and \<open>false\<close> are falsy. \<open>None\<close> stands for an absent
  or null member.
\<close>

definition truthy_str :: "jsstring option \<Rightarrow> bool" where
  "truthy_str x = (case x of None \<Rightarrow> False | Some s \<Rightarrow> s \<noteq> [])"

definition truthy_num :: "'a::zero option \<Rightarrow> bool" where
  "truthy_num x = (case x of None \<Rightarrow> False | Some v \<Rightarrow> v \<noteq> 0)"

definition truthy_bool :: "bool option \<Rightarrow> bool" where
  "truthy_bool x = (case x of None \<Rightarrow> False | Some b \<Rightarrow> b)"

text \<open>\<open>x || d\<close> on a number and on a string.\<close>

definition or_num :: "'a::zero option \<Rightarrow> 'a \<Rightarrow> 'a" where
  "or_num x d = (case x of None \<Rightarrow> d | Some v \<Rightarrow> if v = 0 then d else v)"

definition or_str :: "jsstring option \<Rightarrow> jsstring \<Rightarrow> jsstring" where
  "or_str x d = (case x of None \<Rightarrow> d | Some s \<Rightarrow> if s = [] then d else s)"

text \<open>\<open>x || null\<close>.\<close>

definition or_null :: "'a::zero option \<Rightarrow> 'a option" where
  "or_null x = (if truthy_num x then x else None)"

text \<open>\<open>obj?.member\<close>: absent when the object is.\<close>

definition member :: "'o option \<Rightarrow> ('o \<Rightarrow> 'v option) \<Rightarrow> 'v option" where
  "member obj f = (case obj of None \<Rightarrow> None | Some ob \<Rightarrow> f ob)"

text \<open>
  Time is \<open>Date.now()\<close>, in milliseconds since the epoch. \<open>toISOString().split('T')[0]\<close>
  is the UTC calendar date, kept here as the number of the day.
\<close>

type_synonym timestamp = int

definition iso_date :: "timestamp \<Rightarrow> int" where
  "iso_date t = t div 86400000"

section \<open>The store and the HTTP responses\<close>

text \<open>
  Every call to the store client yields \<open>{data, error}\<close>. Which calls fail is an input
  of the model: a call of kind \<open>k\<close> fails with message \<open>m\<close> when \<open>fails k = Some m\<close>,
  and then leaves the store as it was. Each handler also returns the calls it made,
  in order.
\<close>

datatype store_op =
    UpsertStatus | InsertLocation | InsertScratch | UpsertScratchDaily
  | SelectAnomaly | InsertAnomaly | SelectStatus | SelectWalk | UpdateWalk | InsertWalk

type_synonym faults = "store_op \<Rightarrow> string option"

definition no_faults :: faults where
  "no_faults = (\<lambda>_. None)"

datatype grade = Grade_A | Grade_B | Grade_C | Grade_F

record location_row =
  loc_device_id :: jsstring
  loc_latitude :: real
  loc_longitude :: real

text \<open>
  Modelled from the spec: the table definitions are not part of the sources. An
  AnomalyLogEntry carries a timestamp, \<open>detected_at\<close>, which no insert of the gateway
  supplies: the store stamps the row with the time of the insert.
\<close>

record anomaly_row =
  an_device_id :: jsstring
  an_anomaly_type :: "jsstring option"
  an_detected_at :: timestamp

record ('st, 'sc, 'wt) store =
  device_status :: "jsstring \<rightharpoonup> 'st"
  locations :: "location_row list"
  scratch_events :: "'sc list"
  scratch_daily :: "(jsstring \<times> int) \<rightharpoonup> (int option \<times> real option)"
  anomaly_log :: "anomaly_row list"
  walk_sessions :: "'wt"

section \<open>Signature verification\<close>

text \<open>The checksum loop of the nested-payload gateway: \<open>hash = hash >>> 0\<close> after each character.\<close>

fun djb2_unsigned :: "int \<Rightarrow> jsstring \<Rightarrow> int" where
  "djb2_unsigned hash [] = hash"
| "djb2_unsigned hash (c # cs) = djb2_unsigned (js_ushr0 ((js_shl hash 5 + hash) + int c)) cs"

text \<open>The checksum loop of the flat-payload gateway: \<open>hash = hash & 0xFFFFFFFF\<close> after each character.\<close>

fun djb2_masked :: "int \<Rightarrow> jsstring \<Rightarrow> int" where
  "djb2_masked hash [] = hash"
| "djb2_masked hash (c # cs) = djb2_masked (js_and ((js_shl hash 5 + hash) + int c) 0xFFFFFFFF) cs"

definition calculatedSignature :: "jsstring \<Rightarrow> jsstring \<Rightarrow> int" where
  "calculatedSignature dataString HMAC_KEY =
     js_ushr0 (djb2_unsigned (djb2_unsigned 5381 dataString) HMAC_KEY)"

definition expectedHash :: "jsstring \<Rightarrow> jsstring \<Rightarrow> int" where
  "expectedHash message hmacKey = js_ushr0 (djb2_masked 5381 (message @ hmacKey))"

text \<open>The recurrence as the specification words it.\<close>

definition spec_step :: "int \<Rightarrow> nat \<Rightarrow> int" where
  "spec_step hash byte = (push_bit 5 hash + hash + int byte) mod 2 ^ 32"

definition spec_checksum :: "jsstring \<Rightarrow> jsstring \<Rightarrow> int" where
  "spec_checksum message key = foldl spec_step 5381 (message @ key)"

text \<open>\<open>parseInt\<close> of the signature. The firmware sends the signature as an integer, and the
  decimal text of an integer below \<open>10 ^ 21\<close> in magnitude parses back to itself.\<close>

definition parseInt :: "int \<Rightarrow> int" where
  "parseInt n = n"

text \<open>\<open>toString(16).padStart(8, '0')\<close> of a number from \<open>0\<close> to \<open>2 ^ 32 - 1\<close>.\<close>

definition hex_digit :: "nat \<Rightarrow> nat" where
  "hex_digit d = (if d < 10 then 48 + d else 87 + d)"

fun to_hex :: "nat \<Rightarrow> nat \<Rightarrow> jsstring" where
  "to_hex 0 n = []"
| "to_hex (Suc k) n = to_hex k (n div 16) @ [hex_digit (n mod 16)]"

definition hex8 :: "int \<Rightarrow> jsstring" where
  "hex8 n = to_hex 8 (nat n)"

section \<open>The gateway with nested payloads (version 6.0)\<close>

text \<open>Source: \<open>unnamed/part_001\<close>.\<close>

record gps_obj =
  gps_valid :: "bool option"
  gps_lat :: "real option"
  gps_lon :: "real option"

record scratch_obj =
  scratch_detected :: "bool option"
  scratch_frequency :: "real option"
  scratch_today_count :: "int option"

record health_obj =
  health_anomaly :: "bool option"
  health_anomaly_type :: "jsstring option"
  health_deviation :: "real option"

record walk_obj =
  walk_active :: "bool option"
  walk_duration :: "int option"
  walk_distance :: "int option"
  walk_stops :: "int option"

text \<open>The members of a report that the handlers below branch on or that the walk
  grading reads back; the other members only fill further columns of the status row.\<close>

record payload =
  p_device_id :: "jsstring option"
  p_signature :: "int option"
  p_gps :: "gps_obj option"
  p_scratch :: "scratch_obj option"
  p_health :: "health_obj option"
  p_walk :: "walk_obj option"

record status_row =
  st_latitude :: "real option"
  st_longitude :: "real option"
  st_gps_valid :: bool
  st_walk_active :: bool
  st_walk_duration :: "int option"
  st_walk_distance :: "int option"
  st_walk_stops :: "int option"
  st_scratch_detected :: bool
  st_anomaly_detected :: bool
  st_anomaly_type :: "jsstring option"
  st_last_seen_at :: timestamp

record scratch_row =
  sc_device_id :: jsstring
  sc_frequency_hz :: "real option"
  sc_latitude :: "real option"
  sc_longitude :: "real option"

record walk_row =
  ws_device_id :: jsstring
  ws_started_at :: timestamp
  ws_ended_at :: "timestamp option"
  ws_duration_seconds :: "int option"
  ws_distance_meters :: "int option"
  ws_end_lat :: "real option"
  ws_end_lon :: "real option"
  ws_stop_count :: "int option"
  ws_grade :: "grade option"
  ws_grade_score :: "int option"

type_synonym db = "(status_row, scratch_row, int \<rightharpoonup> walk_row) store"

datatype body =
    ErrorBody string
  | TelemetryOk jsstring timestamp
  | WalkEndOk int grade int int int

datatype 'b response = Response nat 'b

text \<open>\<open>verifyHMAC\<close>. \<open>JSON.stringify\<close> is a parameter; the copy of the payload that is
  serialised has its signature member deleted.\<close>

definition verifyHMAC ::
  "(payload \<Rightarrow> jsstring) \<Rightarrow> jsstring option \<Rightarrow> payload \<Rightarrow> int option \<Rightarrow> bool" where
  "verifyHMAC stringify HMAC_KEY pl providedSignature =
     (if \<not> truthy_str HMAC_KEY then True
      else if \<not> truthy_num providedSignature then False
      else
        let payloadCopy = pl\<lparr>p_signature := None\<rparr>;
            dataString = stringify payloadCopy
        in (case (HMAC_KEY, providedSignature) of
              (Some k, Some sig) \<Rightarrow> calculatedSignature dataString k = parseInt sig
            | _ \<Rightarrow> False))"

definition statusUpdate :: "timestamp \<Rightarrow> payload \<Rightarrow> status_row" where
  "statusUpdate now pl =
     \<lparr> st_latitude = or_null (member (p_gps pl) gps_lat),
       st_longitude = or_null (member (p_gps pl) gps_lon),
       st_gps_valid = truthy_bool (member (p_gps pl) gps_valid),
       st_walk_active = truthy_bool (member (p_walk pl) walk_active),
       st_walk_duration = Some (or_num (member (p_walk pl) walk_duration) 0),
       st_walk_distance = Some (or_num (member (p_walk pl) walk_distance) 0),
       st_walk_stops = Some (or_num (member (p_walk pl) walk_stops) 0),
       st_scratch_detected = truthy_bool (member (p_scratch pl) scratch_detected),
       st_anomaly_detected = truthy_bool (member (p_health pl) health_anomaly),
       st_anomaly_type = (if truthy_str (member (p_health pl) health_anomaly_type)
                          then member (p_health pl) health_anomaly_type else None),
       st_last_seen_at = now \<rparr>"

text \<open>The four steps of the telemetry handler, each on the store and the calls made so far.\<close>

definition upsert_status ::
  "faults \<Rightarrow> timestamp \<Rightarrow> jsstring \<Rightarrow> payload \<Rightarrow> db \<times> store_op list \<Rightarrow> db \<times> store_op list" where
  "upsert_status fails now deviceId pl = (\<lambda>(s, calls).
     ((case fails UpsertStatus of
         None \<Rightarrow> s\<lparr>device_status := (device_status s)(deviceId \<mapsto> statusUpdate now pl)\<rparr>
       | Some statusError \<Rightarrow> s),
      calls @ [UpsertStatus]))"

definition insert_location ::
  "faults \<Rightarrow> jsstring \<Rightarrow> payload \<Rightarrow> db \<times> store_op list \<Rightarrow> db \<times> store_op list" where
  "insert_location fails deviceId pl = (\<lambda>(s, calls).
     if truthy_bool (member (p_gps pl) gps_valid) \<and> truthy_num (member (p_gps pl) gps_lat)
        \<and> truthy_num (member (p_gps pl) gps_lon)
     then
       ((case (fails InsertLocation, member (p_gps pl) gps_lat, member (p_gps pl) gps_lon) of
           (None, Some la, Some lo) \<Rightarrow>
             s\<lparr>locations := locations s @
                  [\<lparr>loc_device_id = deviceId, loc_latitude = la, loc_longitude = lo\<rparr>]\<rparr>
         | _ \<Rightarrow> s),
        calls @ [InsertLocation])
     else (s, calls))"

definition record_scratch ::
  "faults \<Rightarrow> timestamp \<Rightarrow> jsstring \<Rightarrow> payload \<Rightarrow> db \<times> store_op list \<Rightarrow> db \<times> store_op list" where
  "record_scratch fails now deviceId pl = (\<lambda>(s, calls).
     if truthy_bool (member (p_scratch pl) scratch_detected)
     then
       let s1 = (case fails InsertScratch of
                   None \<Rightarrow> s\<lparr>scratch_events := scratch_events s @
                     [\<lparr>sc_device_id = deviceId,
                       sc_frequency_hz = member (p_scratch pl) scratch_frequency,
                       sc_latitude = member (p_gps pl) gps_lat,
                       sc_longitude = member (p_gps pl) gps_lon\<rparr>]\<rparr>
                 | Some scratchError \<Rightarrow> s);
           today = iso_date now;
           s2 = (case fails UpsertScratchDaily of
                   None \<Rightarrow> s1\<lparr>scratch_daily := (scratch_daily s1)((deviceId, today) \<mapsto>
                     (member (p_scratch pl) scratch_today_count,
                      member (p_scratch pl) scratch_frequency))\<rparr>
                 | Some e \<Rightarrow> s1)
       in (s2, calls @ [InsertScratch, UpsertScratchDaily])
     else (s, calls))"

text \<open>The query of the deduplication: the rows of this device and anomaly type whose
  \<open>detected_at\<close> is not before the start of today. A failed query gives \<open>null\<close>,
  here \<open>None\<close>.\<close>

definition existing_anomalies ::
  "faults \<Rightarrow> timestamp \<Rightarrow> jsstring \<Rightarrow> jsstring option \<Rightarrow> db \<Rightarrow> anomaly_row list option" where
  "existing_anomalies fails now deviceId ty s =
     (case fails SelectAnomaly of
        Some e \<Rightarrow> None
      | None \<Rightarrow>
         Some (take 1 (filter (\<lambda>r. an_device_id r = deviceId
                               \<and> ty \<noteq> None \<and> an_anomaly_type r = ty
                               \<and> iso_date now * 86400000 \<le> an_detected_at r)
                        (anomaly_log s))))"

definition record_anomaly ::
  "faults \<Rightarrow> timestamp \<Rightarrow> jsstring \<Rightarrow> payload \<Rightarrow> db \<times> store_op list \<Rightarrow> db \<times> store_op list" where
  "record_anomaly fails now deviceId pl = (\<lambda>(s, calls).
     if truthy_bool (member (p_health pl) health_anomaly)
     then
       let existing = existing_anomalies fails now deviceId (member (p_health pl) health_anomaly_type) s
       in if existing = None \<or> existing = Some []
          then
            ((case fails InsertAnomaly of
                None \<Rightarrow> s\<lparr>anomaly_log := anomaly_log s @
                  [\<lparr>an_device_id = deviceId,
                    an_anomaly_type = member (p_health pl) health_anomaly_type,
                    an_detected_at = now\<rparr>]\<rparr>
              | Some e \<Rightarrow> s),
             calls @ [SelectAnomaly, InsertAnomaly])
          else (s, calls @ [SelectAnomaly])
     else (s, calls))"

definition telemetry ::
  "(payload \<Rightarrow> jsstring) \<Rightarrow> jsstring option \<Rightarrow> faults \<Rightarrow> timestamp \<Rightarrow> payload \<Rightarrow> db
     \<Rightarrow> body response \<times> db \<times> store_op list" where
  "telemetry stringify HMAC_KEY fails now pl s =
     (case p_device_id pl of
        None \<Rightarrow> (Response 400 (ErrorBody ''Missing device_id''), s, [])
      | Some deviceId \<Rightarrow>
          if deviceId = [] then (Response 400 (ErrorBody ''Missing device_id''), s, [])
          else if \<not> verifyHMAC stringify HMAC_KEY pl (p_signature pl)
          then (Response 401 (ErrorBody ''Invalid signature''), s, [])
          else
            (Response 200 (TelemetryOk deviceId now),
             record_anomaly fails now deviceId pl
               (record_scratch fails now deviceId pl
                 (insert_location fails deviceId pl
                   (upsert_status fails now deviceId pl (s, []))))))"

section \<open>Ending a walk (version 6.0): the penalty policy\<close>

definition gradeScore :: "int \<Rightarrow> int \<Rightarrow> int \<Rightarrow> int" where
  "gradeScore duration distance stops =
     (let g0 = 100;
          g1 = g0 - stops * 5;
          g2 = (if duration < 900 then g1 - 20 else g1);
          g3 = (if distance < 500 then g2 - 15 else g2)
      in max 0 (min 100 g3))"

definition grade_of_score :: "int \<Rightarrow> grade" where
  "grade_of_score score =
     (let g0 = Grade_A;
          g1 = (if score < 90 then Grade_B else g0);
          g2 = (if score < 70 then Grade_C else g1);
          g3 = (if score < 50 then Grade_F else g2)
      in g3)"

text \<open>\<open>Math.round\<close> of a quotient of integers: the nearest integer, halves upwards.\<close>

definition round_div :: "int \<Rightarrow> int \<Rightarrow> int" where
  "round_div a b = (2 * a + b) div (2 * b)"

definition walk_end ::
  "faults \<Rightarrow> timestamp \<Rightarrow> jsstring \<Rightarrow> int \<Rightarrow> db \<Rightarrow> body response \<times> db \<times> store_op list" where
  "walk_end fails now deviceId walk_id s =
     (let status = (case fails SelectStatus of None \<Rightarrow> device_status s deviceId | Some e \<Rightarrow> None);
          walk = (case fails SelectWalk of None \<Rightarrow> walk_sessions s walk_id | Some e \<Rightarrow> None)
      in case walk of
           None \<Rightarrow> (Response 404 (ErrorBody ''Walk session not found''), s, [SelectStatus, SelectWalk])
         | Some w \<Rightarrow>
             let duration = or_num (member status st_walk_duration) 0;
                 distance = or_num (member status st_walk_distance) 0;
                 stops = or_num (member status st_walk_stops) 0;
                 score = gradeScore duration distance stops;
                 grade = grade_of_score score
             in (case fails UpdateWalk of
                  Some message \<Rightarrow>
                    (Response 500 (ErrorBody message), s, [SelectStatus, SelectWalk, UpdateWalk])
                | None \<Rightarrow>
                    (Response 200 (WalkEndOk walk_id grade score (round_div duration 60) distance),
                     s\<lparr>walk_sessions := (walk_sessions s)(walk_id \<mapsto>
                         w\<lparr>ws_ended_at := Some now,
                           ws_duration_seconds := Some duration,
                           ws_distance_meters := Some distance,
                           ws_end_lat := (case status of None \<Rightarrow> ws_end_lat w | Some st \<Rightarrow> st_latitude st),
                           ws_end_lon := (case status of None \<Rightarrow> ws_end_lon w | Some st \<Rightarrow> st_longitude st),
                           ws_stop_count := Some stops,
                           ws_grade := Some grade,
                           ws_grade_score := Some score\<rparr>)\<rparr>,
                     [SelectStatus, SelectWalk, UpdateWalk])))"

section \<open>The gateway with flat payloads and anti-cheat fields (version 6.1)\<close>

text \<open>Source: \<open>unnamed/part_000\<close>.\<close>

text \<open>The members of a flat report that the handler branches on, and those it stores
  with a default. \<open>d_timestamp\<close> and \<open>d_boot_count\<close> hold the text that the template
  literal of \<open>verifyHMAC\<close> interpolates for these members.\<close>

record telemetry_data =
  d_device_id :: "jsstring option"
  d_signature :: "jsstring option"
  d_timestamp :: jsstring
  d_boot_count :: jsstring
  d_gps_valid :: "bool option"
  d_latitude :: "real option"
  d_longitude :: "real option"
  d_scratch_detected :: "bool option"
  d_scratch_intensity :: "real option"
  d_scratch_duration :: "int option"
  d_anomaly_detected :: "bool option"
  d_anomaly_type :: "jsstring option"
  d_walk_verification_status :: "jsstring option"
  d_walk_quality_score :: "real option"
  d_carried_seconds :: "int option"
  d_vehicle_seconds :: "int option"
  d_actual_walk_seconds :: "int option"
  d_cheat_flags :: "int option"

text \<open>The columns of the status row that the upsert always supplies; the others are
  passed through from the report as they are.\<close>

record status_row_v61 =
  s1_walk_verification_status :: jsstring
  s1_walk_quality_score :: real
  s1_carried_seconds :: int
  s1_vehicle_seconds :: int
  s1_actual_walk_seconds :: int
  s1_cheat_flags :: int
  s1_last_seen_at :: timestamp

record scratch_row_v61 =
  sc1_device_id :: jsstring
  sc1_intensity :: real
  sc1_duration_ms :: int

text \<open>The body of a walk-end request. Here \<open>None\<close> is an absent member.\<close>

record walk_data =
  wd_started_at :: "jsstring option"
  wd_duration_seconds :: "int option"
  wd_distance_meters :: "int option"
  wd_stop_count :: "int option"
  wd_quality_score :: "real option"
  wd_verification_status :: "jsstring option"
  wd_carried_seconds :: "int option"
  wd_vehicle_seconds :: "int option"
  wd_actual_walk_seconds :: "int option"
  wd_cheat_flags :: "int option"

datatype started = Supplied jsstring | Computed timestamp

record walk_row_v61 =
  w1_device_id :: jsstring
  w1_started_at :: started
  w1_ended_at :: timestamp
  w1_duration_seconds :: "int option"
  w1_distance_meters :: "int option"
  w1_stop_count :: "int option"
  w1_grade :: grade
  w1_grade_score :: real
  w1_verification_status :: jsstring
  w1_quality_score :: real
  w1_carried_seconds :: int
  w1_carried_percent :: "double option"
  w1_vehicle_seconds :: int
  w1_vehicle_detected :: bool
  w1_actual_walk_seconds :: int
  w1_actual_walk_percent :: "double option"
  w1_cheat_flags :: int
  w1_cheat_summary :: "string option"

type_synonym db_v61 = "(status_row_v61, scratch_row_v61, walk_row_v61 list) store"

datatype body_v61 =
    Error_v61 string
  | TelemetryOk_v61 timestamp
  | WalkOk_v61 walk_row_v61 grade

text \<open>\<open>`${x}`\<close> of a member that holds a string or is absent.\<close>

definition interpolate :: "jsstring option \<Rightarrow> jsstring" where
  "interpolate x = (case x of None \<Rightarrow> js ''undefined'' | Some t \<Rightarrow> t)"

definition message_v61 :: "telemetry_data \<Rightarrow> jsstring" where
  "message_v61 data = interpolate (d_device_id data) @ js '':'' @ d_timestamp data @ js '':'' @ d_boot_count data"

definition verifyHMAC_v61 :: "jsstring \<Rightarrow> telemetry_data \<Rightarrow> jsstring option \<Rightarrow> bool" where
  "verifyHMAC_v61 hmacKey data providedSignature =
     (if hmacKey = [] then True
      else
        let message = message_v61 data;
            expected = hex8 (expectedHash message hmacKey)
        in Some expected = providedSignature)"

definition upsert_status_v61 ::
  "faults \<Rightarrow> timestamp \<Rightarrow> jsstring \<Rightarrow> telemetry_data \<Rightarrow> db_v61 \<times> store_op list \<Rightarrow> db_v61 \<times> store_op list" where
  "upsert_status_v61 fails now deviceId data = (\<lambda>(s, calls).
     ((case fails UpsertStatus of
         None \<Rightarrow> s\<lparr>device_status := (device_status s)(deviceId \<mapsto>
           \<lparr> s1_walk_verification_status = or_str (d_walk_verification_status data) (js ''not_walking''),
             s1_walk_quality_score = or_num (d_walk_quality_score data) 0,
             s1_carried_seconds = or_num (d_carried_seconds data) 0,
             s1_vehicle_seconds = or_num (d_vehicle_seconds data) 0,
             s1_actual_walk_seconds = or_num (d_actual_walk_seconds data) 0,
             s1_cheat_flags = or_num (d_cheat_flags data) 0,
             s1_last_seen_at = now \<rparr>)\<rparr>
       | Some statusError \<Rightarrow> s),
      calls @ [UpsertStatus]))"

definition insert_location_v61 ::
  "faults \<Rightarrow> jsstring \<Rightarrow> telemetry_data \<Rightarrow> db_v61 \<times> store_op list \<Rightarrow> db_v61 \<times> store_op list" where
  "insert_location_v61 fails deviceId data = (\<lambda>(s, calls).
     if truthy_bool (d_gps_valid data) \<and> truthy_num (d_latitude data) \<and> truthy_num (d_longitude data)
     then
       ((case (fails InsertLocation, d_latitude data, d_longitude data) of
           (None, Some la, Some lo) \<Rightarrow>
             s\<lparr>locations := locations s @
                  [\<lparr>loc_device_id = deviceId, loc_latitude = la, loc_longitude = lo\<rparr>]\<rparr>
         | _ \<Rightarrow> s),
        calls @ [InsertLocation])
     else (s, calls))"

definition insert_scratch_v61 ::
  "faults \<Rightarrow> jsstring \<Rightarrow> telemetry_data \<Rightarrow> db_v61 \<times> store_op list \<Rightarrow> db_v61 \<times> store_op list" where
  "insert_scratch_v61 fails deviceId data = (\<lambda>(s, calls).
     if truthy_bool (d_scratch_detected data)
     then
       ((case fails InsertScratch of
           None \<Rightarrow> s\<lparr>scratch_events := scratch_events s @
             [\<lparr>sc1_device_id = deviceId,
               sc1_intensity = or_num (d_scratch_intensity data) 1,
               sc1_duration_ms = or_num (d_scratch_duration data) 500\<rparr>]\<rparr>
         | Some e \<Rightarrow> s),
        calls @ [InsertScratch])
     else (s, calls))"

definition insert_anomaly_v61 ::
  "faults \<Rightarrow> timestamp \<Rightarrow> jsstring \<Rightarrow> telemetry_data \<Rightarrow> db_v61 \<times> store_op list \<Rightarrow> db_v61 \<times> store_op list" where
  "insert_anomaly_v61 fails now deviceId data = (\<lambda>(s, calls).
     if truthy_bool (d_anomaly_detected data) \<and> truthy_str (d_anomaly_type data)
     then
       ((case fails InsertAnomaly of
           None \<Rightarrow> s\<lparr>anomaly_log := anomaly_log s @
             [\<lparr>an_device_id = deviceId,
               an_anomaly_type = d_anomaly_type data,
               an_detected_at = now\<rparr>]\<rparr>
         | Some e \<Rightarrow> s),
        calls @ [InsertAnomaly])
     else (s, calls))"

text \<open>\<open>supabase\<close> is \<open>null\<close> when the store is not configured.\<close>

definition telemetry_v61 ::
  "jsstring \<Rightarrow> bool \<Rightarrow> faults \<Rightarrow> timestamp \<Rightarrow> telemetry_data \<Rightarrow> db_v61
     \<Rightarrow> body_v61 response \<times> db_v61 \<times> store_op list" where
  "telemetry_v61 hmacKey supabase fails now data s =
     (case d_device_id data of
        None \<Rightarrow> (Response 400 (Error_v61 ''Missing device_id''), s, [])
      | Some deviceId \<Rightarrow>
          if deviceId = [] then (Response 400 (Error_v61 ''Missing device_id''), s, [])
          else if (hmacKey \<noteq> [] \<and> truthy_str (d_signature data))
                  \<and> \<not> verifyHMAC_v61 hmacKey data (d_signature data)
          then (Response 401 (Error_v61 ''Invalid signature''), s, [])
          else if \<not> supabase
          then (Response 500 (Error_v61 ''Database not configured''), s, [])
          else
            (Response 200 (TelemetryOk_v61 now),
             insert_anomaly_v61 fails now deviceId data
               (insert_scratch_v61 fails deviceId data
                 (insert_location_v61 fails deviceId data
                   (upsert_status_v61 fails now deviceId data (s, []))))))"

section \<open>Ending a walk (version 6.1): the supplied score\<close>

definition grade_v61 :: "real option \<Rightarrow> grade" where
  "grade_v61 quality_score =
     (let score = or_num quality_score 0
      in if score \<ge> 90 then Grade_A
         else if score \<ge> 70 then Grade_B
         else if score \<ge> 50 then Grade_C
         else Grade_F)"

definition totalSeconds :: "walk_data \<Rightarrow> int" where
  "totalSeconds walkData = or_num (wd_duration_seconds walkData) 1"

text \<open>\<open>(seconds / totalSeconds) * 100\<close>, in doubles; the counters are whole numbers.\<close>

definition carriedPercent :: "walk_data \<Rightarrow> double option" where
  "carriedPercent walkData =
     map_option (\<lambda>quotient. js_mul quotient (Double 100 0))
       (js_div (Double (or_num (wd_carried_seconds walkData) 0) 0) (Double (totalSeconds walkData) 0))"

definition actualWalkPercent :: "walk_data \<Rightarrow> double option" where
  "actualWalkPercent walkData =
     map_option (\<lambda>quotient. js_mul quotient (Double 100 0))
       (js_div (Double (or_num (wd_actual_walk_seconds walkData) 0) 0) (Double (totalSeconds walkData) 0))"

definition cheatSummary :: "int \<Rightarrow> string list" where
  "cheatSummary flags =
     (if js_and flags 0x01 \<noteq> 0 then [''carrying_detected''] else []) @
     (if js_and flags 0x02 \<noteq> 0 then [''vehicle_detected''] else []) @
     (if js_and flags 0x04 \<noteq> 0 then [''excessive_stops''] else []) @
     (if js_and flags 0x08 \<noteq> 0 then [''leash_only''] else [])"

fun join :: "string \<Rightarrow> string list \<Rightarrow> string" where
  "join sep [] = []"
| "join sep [x] = x"
| "join sep (x # y # ys) = x @ sep @ join sep (y # ys)"

text \<open>The start of the walk when the body names none: \<open>duration_seconds\<close> before now.
  With no \<open>duration_seconds\<close> either the date is invalid, and so is a time more than
  \<open>8.64e15\<close> milliseconds from the epoch; \<open>toISOString\<close> then throws.\<close>

definition started_at :: "timestamp \<Rightarrow> walk_data \<Rightarrow> started option" where
  "started_at now walkData =
     (case wd_started_at walkData of
        Some t \<Rightarrow> if t \<noteq> [] then Some (Supplied t) else
          (case wd_duration_seconds walkData of
             None \<Rightarrow> None
           | Some d \<Rightarrow> if \<bar>now - d * 1000\<bar> \<le> 8640000000000000 then Some (Computed (now - d * 1000)) else None)
      | None \<Rightarrow>
          (case wd_duration_seconds walkData of
             None \<Rightarrow> None
           | Some d \<Rightarrow> if \<bar>now - d * 1000\<bar> \<le> 8640000000000000 then Some (Computed (now - d * 1000)) else None))"

definition walk_end_v61 ::
  "bool \<Rightarrow> faults \<Rightarrow> timestamp \<Rightarrow> jsstring \<Rightarrow> walk_data \<Rightarrow> db_v61
     \<Rightarrow> body_v61 response \<times> db_v61 \<times> store_op list" where
  "walk_end_v61 supabase fails now deviceId walkData s =
     (if \<not> supabase then (Response 500 (Error_v61 ''Database not configured''), s, [])
      else
        let grade = grade_v61 (wd_quality_score walkData);
            score = or_num (wd_quality_score walkData) 0;
            flags = or_num (wd_cheat_flags walkData) 0;
            summary = join '', '' (cheatSummary flags)
        in (case started_at now walkData of
              None \<Rightarrow> (Response 500 (Error_v61 ''Internal server error''), s, [])
            | Some start \<Rightarrow>
                let row =
                  \<lparr> w1_device_id = deviceId,
                    w1_started_at = start,
                    w1_ended_at = now,
                    w1_duration_seconds = wd_duration_seconds walkData,
                    w1_distance_meters = wd_distance_meters walkData,
                    w1_stop_count = wd_stop_count walkData,
                    w1_grade = grade,
                    w1_grade_score = score,
                    w1_verification_status = or_str (wd_verification_status walkData) (js ''pending''),
                    w1_quality_score = score,
                    w1_carried_seconds = or_num (wd_carried_seconds walkData) 0,
                    w1_carried_percent = carriedPercent walkData,
                    w1_vehicle_seconds = or_num (wd_vehicle_seconds walkData) 0,
                    w1_vehicle_detected = (js_and flags 0x02 \<noteq> 0),
                    w1_actual_walk_seconds = or_num (wd_actual_walk_seconds walkData) 0,
                    w1_actual_walk_percent = actualWalkPercent walkData,
                    w1_cheat_flags = flags,
                    w1_cheat_summary = (if summary = [] then None else Some summary) \<rparr>
                in (case fails InsertWalk of
                      Some message \<Rightarrow> (Response 500 (Error_v61 message), s, [InsertWalk])
                    | None \<Rightarrow>
                        (Response 200 (WalkOk_v61 row grade),
                         s\<lparr>walk_sessions := walk_sessions s @ [row]\<rparr>,
                         [InsertWalk]))))"

section \<open>The properties, as the specification words them\<close>

definition clamp :: "int \<Rightarrow> int \<Rightarrow> int \<Rightarrow> int" where
  "clamp x lo hi = max lo (min hi x)"

definition indicator :: "bool \<Rightarrow> int" where
  "indicator b = (if b then 1 else 0)"

definition spec_score :: "int \<Rightarrow> int \<Rightarrow> int \<Rightarrow> int" where
  "spec_score duration distance stopCount =
     clamp (100 - 5 * stopCount - 20 * indicator (duration < 900) - 15 * indicator (distance < 500)) 0 100"

definition spec_grade :: "real \<Rightarrow> grade" where
  "spec_grade score =
     (if score \<ge> 90 then Grade_A
      else if 70 \<le> score \<and> score < 90 then Grade_B
      else if 50 \<le> score \<and> score < 70 then Grade_C
      else Grade_F)"

definition spec_percent :: "int \<Rightarrow> int \<Rightarrow> real" where
  "spec_percent seconds totalDurationSeconds =
     100 * real_of_int seconds / real_of_int (max 1 totalDurationSeconds)"

fun status_code :: "'b response \<Rightarrow> nat" where
  "status_code (Response code b) = code"

definition is_write :: "store_op \<Rightarrow> bool" where
  "is_write k = (k \<in> {UpsertStatus, InsertLocation, InsertScratch, UpsertScratchDaily,
                       InsertAnomaly, UpdateWalk, InsertWalk})"

text \<open>The anomaly entries of one device, type and calendar day.\<close>

definition entries_on :: "jsstring \<Rightarrow> jsstring \<Rightarrow> int \<Rightarrow> anomaly_row list \<Rightarrow> anomaly_row list" where
  "entries_on deviceId ty day rows =
     filter (\<lambda>r. an_device_id r = deviceId \<and> an_anomaly_type r = Some ty
                 \<and> iso_date (an_detected_at r) = day) rows"

text \<open>At most one entry per device, anomaly type and calendar day: the keys of the
  typed entries are distinct.\<close>

definition anomaly_keys :: "anomaly_row list \<Rightarrow> (jsstring \<times> jsstring \<times> int) list" where
  "anomaly_keys rows =
     concat (map (\<lambda>r. case an_anomaly_type r of
                         None \<Rightarrow> []
                       | Some ty \<Rightarrow> [(an_device_id r, ty, iso_date (an_detected_at r))]) rows)"

definition deduplicated :: "anomaly_row list \<Rightarrow> bool" where
  "deduplicated rows = distinct (anomaly_keys rows)"

section \<open>Example data\<close>

definition empty_db :: db where
  "empty_db = \<lparr> device_status = Map.empty, locations = [], scratch_events = [],
                scratch_daily = Map.empty, anomaly_log = [], walk_sessions = Map.empty \<rparr>"

definition empty_db_v61 :: db_v61 where
  "empty_db_v61 = \<lparr> device_status = Map.empty, locations = [], scratch_events = [],
                    scratch_daily = Map.empty, anomaly_log = [], walk_sessions = [] \<rparr>"

text \<open>A report of device \<open>c1\<close> with no other member, nested and flat.\<close>

definition bare_report :: payload where
  "bare_report = \<lparr> p_device_id = Some (js ''c1''), p_signature = None, p_gps = None,
                   p_scratch = None, p_health = None, p_walk = None \<rparr>"

definition bare_report_v61 :: telemetry_data where
  "bare_report_v61 =
     \<lparr> d_device_id = Some (js ''c1''), d_signature = None, d_timestamp = js ''1700000000'',
       d_boot_count = js ''3'', d_gps_valid = None, d_latitude = None, d_longitude = None,
       d_scratch_detected = None, d_scratch_intensity = None, d_scratch_duration = None,
       d_anomaly_detected = None, d_anomaly_type = None, d_walk_verification_status = None,
       d_walk_quality_score = None, d_carried_seconds = None, d_vehicle_seconds = None,
       d_actual_walk_seconds = None, d_cheat_flags = None \<rparr>"

definition bare_walk_data :: walk_data where
  "bare_walk_data =
     \<lparr> wd_started_at = None, wd_duration_seconds = None, wd_distance_meters = None,
       wd_stop_count = None, wd_quality_score = None, wd_verification_status = None,
       wd_carried_seconds = None, wd_vehicle_seconds = None, wd_actual_walk_seconds = None,
       wd_cheat_flags = None \<rparr>"

definition status_with_counters :: "int \<Rightarrow> int \<Rightarrow> int \<Rightarrow> status_row" where
  "status_with_counters duration distance stops =
     \<lparr> st_latitude = None, st_longitude = None, st_gps_valid = False, st_walk_active = False,
       st_walk_duration = Some duration, st_walk_distance = Some distance,
       st_walk_stops = Some stops, st_scratch_detected = False, st_anomaly_detected = False,
       st_anomaly_type = None, st_last_seen_at = 0 \<rparr>"

text \<open>A session of device \<open>c1\<close> that was ended before, with grade A.\<close>

definition ended_walk :: walk_row where
  "ended_walk =
     \<lparr> ws_device_id = js ''c1'', ws_started_at = 1000, ws_ended_at = Some 2000000,
       ws_duration_seconds = Some 1800, ws_distance_meters = Some 1500, ws_end_lat = None,
       ws_end_lon = None, ws_stop_count = Some 0, ws_grade = Some Grade_A,
       ws_grade_score = Some 100 \<rparr>"

definition anomaly_report :: payload where
  "anomaly_report = bare_report\<lparr> p_health := Some \<lparr> health_anomaly = Some True,
       health_anomaly_type = Some (js ''fever''), health_deviation = None \<rparr> \<rparr>"

text \<open>A stand-in for \<open>JSON.stringify\<close> in the examples: it writes the device id only.\<close>

definition toy_stringify :: "payload \<Rightarrow> jsstring" where
  "toy_stringify pl = js ''{device_id:'' @ interpolate (p_device_id pl) @ js ''}''"

text \<open>A valid fix on the equator, nested and flat.\<close>

definition equator_report :: payload where
  "equator_report = bare_report\<lparr> p_gps := Some \<lparr> gps_valid = Some True, gps_lat = Some 0,
       gps_lon = Some 37 \<rparr> \<rparr>"

definition equator_report_v61 :: telemetry_data where
  "equator_report_v61 = bare_report_v61\<lparr> d_gps_valid := Some True, d_latitude := Some 0,
       d_longitude := Some 37 \<rparr>"

definition fix_report :: payload where
  "fix_report = bare_report\<lparr> p_gps := Some \<lparr> gps_valid = Some True, gps_lat = Some 12,
       gps_lon = Some 77 \<rparr> \<rparr>"

definition anomaly_report_v61 :: telemetry_data where
  "anomaly_report_v61 = bare_report_v61\<lparr> d_anomaly_detected := Some True,
       d_anomaly_type := Some (js ''fever'') \<rparr>"

text \<open>A store whose location inserts fail.\<close>

definition location_fault :: faults where
  "location_fault = no_faults(InsertLocation \<mapsto> ''connection reset'')"

text \<open>A store that holds one anomaly entry of device \<open>c1\<close>, dated 2023-11-13 (day 19674),
  and the session above under id 7.\<close>

definition used_db :: db where
  "used_db = empty_db\<lparr> anomaly_log := [\<lparr>an_device_id = js ''c1'',
       an_anomaly_type = Some (js ''fever''), an_detected_at = 1699913600000\<rparr>],
     walk_sessions := [7 \<mapsto> ended_walk] \<rparr>"

section \<open>Double arithmetic\<close>

lemma powi_split: "(2::real) powi k = 2 ^ nat k / 2 ^ nat (- k)"
  by (cases "0 \<le> k") (simp_all add: power_int_def field_simps)

lemma round_half_even_error:
  assumes "0 < den"
  shows "\<bar>real_of_int (round_half_even num den) - real_of_int num / real_of_int den\<bar> \<le> 1 / 2"
proof -
  define q where "q = num div den"
  define r where "r = num mod den"
  have r: "0 \<le> r" "r < den" using assms by (simp_all add: r_def)
  have "num = q * den + r" by (simp add: q_def r_def)
  then have x: "real_of_int num / real_of_int den = real_of_int q + real_of_int r / real_of_int den"
    using assms by (simp add: field_simps)
  have frac: "0 \<le> real_of_int r / real_of_int den" "real_of_int r / real_of_int den < 1"
    using r assms by simp_all
  consider "2 * r < den" | "den < 2 * r" | "2 * r = den" by linarith
  then show ?thesis
  proof cases
    case 1
    then have "real_of_int r / real_of_int den < 1 / 2" using assms by (simp add: field_simps)
    moreover have "round_half_even num den = q" using 1 by (simp add: round_half_even_def q_def r_def Let_def)
    ultimately show ?thesis using frac x by simp
  next
    case 2
    then have "1 / 2 < real_of_int r / real_of_int den" using assms by (simp add: field_simps)
    moreover have "round_half_even num den = q + 1" using 2 by (simp add: round_half_even_def q_def r_def Let_def)
    ultimately show ?thesis using frac x by simp
  next
    case 3
    then have h: "real_of_int r / real_of_int den = 1 / 2" using assms by (simp add: field_simps)
    have "round_half_even num den = q \<or> round_half_even num den = q + 1"
      using 3 by (simp add: round_half_even_def q_def r_def Let_def)
    then show ?thesis using h x by auto
  qed
qed

lemma round_half_even_exact:
  assumes "0 < den" and "num = j * den"
  shows "round_half_even num den = j"
  using assms by (simp add: round_half_even_def Let_def)

lemma bitlen_real_bounds:
  assumes "0 < a"
  shows "2 powi (bitlen a - 1) \<le> real_of_int a" and "real_of_int a < 2 powi (bitlen a)"
proof -
  have b: "2 ^ nat (bitlen a - 1) \<le> a" "a < 2 ^ nat (bitlen a)"
    using bitlen_bounds [OF assms] by simp_all
  have pos: "1 \<le> bitlen a" using assms bitlen_eq_zero_iff [of a] bitlen_nonneg [of a] by linarith
  have "real_of_int (2 ^ nat (bitlen a - 1)) \<le> real_of_int a" using b(1) by linarith
  then show "2 powi (bitlen a - 1) \<le> real_of_int a"
    using pos by (simp add: power_int_def)
  have "real_of_int a < real_of_int (2 ^ nat (bitlen a))" using b(2) by linarith
  then show "real_of_int a < 2 powi (bitlen a)"
    using pos by (simp add: power_int_def)
qed

text \<open>The exponent that \<open>fl_ratio\<close> picks leaves at least 53 bits before the binary point.\<close>

lemma fl_ratio_pos:
  assumes "0 < a" and "0 < b"
  shows "\<exists>e. fl_ratio a b = Double (round_half_even (a * 2 ^ nat (- e)) (b * 2 ^ nat e)) e
             \<and> real_of_int b * 2 powi (e + 52) \<le> real_of_int a"
proof -
  define k where "k = bitlen a - bitlen b"
  define l where "l = (if b * 2 ^ nat k \<le> a * 2 ^ nat (- k) then k else k - 1)"
  define e where "e = l - 52"
  have fl: "fl_ratio a b = Double (round_half_even (a * 2 ^ nat (- e)) (b * 2 ^ nat e)) e"
    using assms by (simp add: fl_ratio_def Let_def k_def l_def e_def)
  have "real_of_int b * 2 powi l \<le> real_of_int a"
  proof (cases "b * 2 ^ nat k \<le> a * 2 ^ nat (- k)")
    case True
    then have "real_of_int (b * 2 ^ nat k) \<le> real_of_int (a * 2 ^ nat (- k))" by linarith
    then have "real_of_int b * 2 ^ nat k \<le> real_of_int a * 2 ^ nat (- k)" by simp
    then have "real_of_int b * (2 ^ nat k / 2 ^ nat (- k)) \<le> real_of_int a"
      by (simp add: field_simps)
    then show ?thesis using True by (simp add: l_def powi_split [of k])
  next
    case False
    have "real_of_int b * 2 powi (k - 1) \<le> 2 powi (bitlen b) * 2 powi (k - 1)"
      using bitlen_real_bounds(2) [OF assms(2)] by (simp add: mult_right_mono)
    also have "\<dots> = 2 powi (bitlen a - 1)"
      by (simp add: k_def power_int_add [symmetric])
    also have "\<dots> \<le> real_of_int a" by (rule bitlen_real_bounds(1) [OF assms(1)])
    finally show ?thesis using False by (simp add: l_def)
  qed
  then have "real_of_int b * 2 powi (e + 52) \<le> real_of_int a" by (simp add: e_def)
  with fl show ?thesis by blast
qed

text \<open>The quotient scaled by the exponent lies between \<open>2 ^ 52\<close> and \<open>2 ^ 53\<close>.\<close>

lemma fl_ratio_pos_range:
  assumes "0 < a" and "0 < b"
  shows "\<exists>e. fl_ratio a b = Double (round_half_even (a * 2 ^ nat (- e)) (b * 2 ^ nat e)) e
             \<and> real_of_int b * 2 powi (e + 52) \<le> real_of_int a
             \<and> real_of_int a < real_of_int b * 2 powi (e + 53)"
proof -
  define k where "k = bitlen a - bitlen b"
  define l where "l = (if b * 2 ^ nat k \<le> a * 2 ^ nat (- k) then k else k - 1)"
  define e where "e = l - 52"
  have fl: "fl_ratio a b = Double (round_half_even (a * 2 ^ nat (- e)) (b * 2 ^ nat e)) e"
    using assms by (simp add: fl_ratio_def Let_def k_def l_def e_def)
  have test: "(b * 2 ^ nat k \<le> a * 2 ^ nat (- k)) = (real_of_int b * 2 powi k \<le> real_of_int a)"
  proof -
    have "(b * 2 ^ nat k \<le> a * 2 ^ nat (- k))
            = (real_of_int (b * 2 ^ nat k) \<le> real_of_int (a * 2 ^ nat (- k)))"
      by (simp only: of_int_le_iff)
    also have "\<dots> = (real_of_int b * 2 ^ nat k \<le> real_of_int a * 2 ^ nat (- k))" by simp
    also have "\<dots> = (real_of_int b * (2 ^ nat k / 2 ^ nat (- k)) \<le> real_of_int a)"
      by (simp add: field_simps)
    finally show ?thesis by (simp only: powi_split [of k])
  qed
  have low: "real_of_int b * 2 powi l \<le> real_of_int a"
  proof (cases "b * 2 ^ nat k \<le> a * 2 ^ nat (- k)")
    case True
    then show ?thesis using test by (simp add: l_def)
  next
    case False
    have "real_of_int b * 2 powi (k - 1) \<le> 2 powi (bitlen b) * 2 powi (k - 1)"
      using bitlen_real_bounds(2) [OF assms(2)] by (simp add: mult_right_mono)
    also have "\<dots> = 2 powi (bitlen a - 1)"
      by (simp add: k_def power_int_add [symmetric])
    also have "\<dots> \<le> real_of_int a" by (rule bitlen_real_bounds(1) [OF assms(1)])
    finally show ?thesis using False by (simp add: l_def)
  qed
  have up: "real_of_int a < real_of_int b * 2 powi (l + 1)"
  proof (cases "b * 2 ^ nat k \<le> a * 2 ^ nat (- k)")
    case True
    have "real_of_int a < 2 powi (bitlen a)" by (rule bitlen_real_bounds(2) [OF assms(1)])
    also have "\<dots> = 2 powi (bitlen b - 1) * 2 powi (k + 1)"
      by (simp add: k_def power_int_add [symmetric])
    also have "\<dots> \<le> real_of_int b * 2 powi (k + 1)"
      using bitlen_real_bounds(1) [OF assms(2)] by (simp add: mult_right_mono)
    finally show ?thesis using True by (simp add: l_def)
  next
    case False
    then have "real_of_int a < real_of_int b * 2 powi k" using test by simp
    then show ?thesis using False by (simp add: l_def)
  qed
  have "real_of_int b * 2 powi (e + 52) \<le> real_of_int a" using low by (simp add: e_def)
  moreover have "real_of_int a < real_of_int b * 2 powi (e + 53)"
  proof -
    have "e + 53 = l + 1" by (simp add: e_def)
    then show ?thesis using up by (simp only:)
  qed
  ultimately show ?thesis using fl by blast
qed

lemma scaled_ratio:
  assumes "0 < b"
  shows "real_of_int (a * 2 ^ nat (- e)) / real_of_int (b * 2 ^ nat e)
           = real_of_int a / real_of_int b * 2 powi (- e)"
  by (simp add: powi_split [of "- e"])

lemma fl_ratio_pos_error:
  assumes "0 < a" and "0 < b"
  shows "\<bar>dval (fl_ratio a b) - real_of_int a / real_of_int b\<bar> \<le> real_of_int a / real_of_int b / 2 ^ 53"
proof -
  obtain e where fl: "fl_ratio a b = Double (round_half_even (a * 2 ^ nat (- e)) (b * 2 ^ nat e)) e"
    and low: "real_of_int b * 2 powi (e + 52) \<le> real_of_int a"
    using fl_ratio_pos [OF assms] by blast
  define x where "x = real_of_int a / real_of_int b"
  define m where "m = round_half_even (a * 2 ^ nat (- e)) (b * 2 ^ nat e)"
  have den: "0 < b * 2 ^ nat e" using assms by simp
  have "\<bar>real_of_int m - x * 2 powi (- e)\<bar> \<le> 1 / 2"
    using round_half_even_error [OF den, of "a * 2 ^ nat (- e)"]
    unfolding m_def x_def scaled_ratio [OF assms(2)] .
  then have "\<bar>real_of_int m - x * 2 powi (- e)\<bar> * 2 powi e \<le> 1 / 2 * 2 powi e"
    by (simp add: mult_right_mono)
  moreover have "\<bar>real_of_int m - x * 2 powi (- e)\<bar> * 2 powi e = \<bar>real_of_int m * 2 powi e - x\<bar>"
  proof -
    have "\<bar>real_of_int m - x * 2 powi (- e)\<bar> * 2 powi e = \<bar>(real_of_int m - x * 2 powi (- e)) * 2 powi e\<bar>"
      by (simp add: abs_mult)
    also have "(real_of_int m - x * 2 powi (- e)) * 2 powi e = real_of_int m * 2 powi e - x"
      by (simp add: algebra_simps power_int_minus)
    finally show ?thesis .
  qed
  ultimately have err: "\<bar>real_of_int m * 2 powi e - x\<bar> \<le> 2 powi e / 2" by simp
  have "2 powi (e + 52) \<le> x"
    using low assms by (simp add: x_def field_simps)
  then have "2 powi e * 2 ^ 52 \<le> x" by (simp add: power_int_add)
  then have "2 powi e / 2 \<le> x / 2 ^ 53" by simp
  with err show ?thesis
    by (simp add: fl dval_def m_def x_def)
qed

lemma fl_ratio_sign:
  assumes "n \<noteq> 0" and "d \<noteq> 0"
  shows "dval (fl_ratio n d) = real_of_int (sgn n * sgn d) * dval (fl_ratio \<bar>n\<bar> \<bar>d\<bar>)"
proof -
  have "sgn \<bar>n\<bar> = 1" "sgn \<bar>d\<bar> = 1" using assms by simp_all
  then show ?thesis
    using assms by (simp add: fl_ratio_def dval_def Let_def)
qed

lemma fl_ratio_error:
  assumes "d \<noteq> 0"
  shows "\<bar>dval (fl_ratio n d) - real_of_int n / real_of_int d\<bar>
           \<le> \<bar>real_of_int n / real_of_int d\<bar> / 2 ^ 53"
proof (cases "n = 0")
  case True
  then show ?thesis by (simp add: fl_ratio_def dval_def)
next
  case False
  define x where "x = real_of_int \<bar>n\<bar> / real_of_int \<bar>d\<bar>"
  define y where "y = dval (fl_ratio \<bar>n\<bar> \<bar>d\<bar>)"
  have x: "0 \<le> x" by (simp add: x_def)
  have pos: "\<bar>y - x\<bar> \<le> x / 2 ^ 53"
    unfolding x_def y_def using False assms by (intro fl_ratio_pos_error) simp_all
  have fl: "dval (fl_ratio n d) = real_of_int (sgn n * sgn d) * y"
    unfolding y_def by (rule fl_ratio_sign [OF False assms])
  consider "0 < n" "0 < d" | "0 < n" "d < 0" | "n < 0" "0 < d" | "n < 0" "d < 0"
    using False assms by linarith
  then show ?thesis
  proof cases
    case 1
    then have "real_of_int n / real_of_int d = x" "dval (fl_ratio n d) = y"
      by (simp_all add: x_def fl)
    then show ?thesis using pos x by simp
  next
    case 2
    then have "real_of_int n / real_of_int d = - x" "dval (fl_ratio n d) = - y"
      by (simp_all add: x_def fl)
    then show ?thesis using pos x by (simp add: abs_minus_commute)
  next
    case 3
    then have "real_of_int n / real_of_int d = - x" "dval (fl_ratio n d) = - y"
      by (simp_all add: x_def fl)
    then show ?thesis using pos x by (simp add: abs_minus_commute)
  next
    case 4
    then have "real_of_int n / real_of_int d = x" "dval (fl_ratio n d) = y"
      by (simp_all add: x_def fl)
    then show ?thesis using pos x by simp
  qed
qed

lemma fl_ratio_pos_exact:
  assumes "0 < a" and "0 < b"
    and rep: "real_of_int a / real_of_int b = real_of_int j * 2 powi s"
    and small: "j < 2 ^ 53"
  shows "dval (fl_ratio a b) = real_of_int a / real_of_int b"
proof -
  obtain e where fl: "fl_ratio a b = Double (round_half_even (a * 2 ^ nat (- e)) (b * 2 ^ nat e)) e"
    and low: "real_of_int b * 2 powi (e + 52) \<le> real_of_int a"
    using fl_ratio_pos [OF assms(1,2)] by blast
  have "2 powi (e + 52) \<le> real_of_int a / real_of_int b"
    using low assms by (simp add: field_simps)
  also have "\<dots> = real_of_int j * 2 powi s" by (rule rep)
  also have "\<dots> < 2 ^ 53 * 2 powi s"
  proof -
    have "real_of_int j < 2 ^ 53" using small by simp
    then show ?thesis by (intro mult_strict_right_mono) simp_all
  qed
  also have "\<dots> = 2 powi (s + 53)" by (simp add: power_int_add)
  finally have lt: "(2::real) powi (e + 52) < 2 powi (s + 53)" .
  have es: "e \<le> s"
  proof (rule ccontr)
    assume "\<not> e \<le> s"
    then have "s + 53 \<le> e + 52" by simp
    then have "(2::real) powi (s + 53) \<le> 2 powi (e + 52)" by (rule power_int_increasing) simp
    with lt show False by simp
  qed
  define X where "X = j * 2 ^ nat (s - e)"
  have pw: "(2::real) powi (s - e) = 2 ^ nat (s - e)" using es by (simp add: power_int_def)
  have "real_of_int (a * 2 ^ nat (- e)) / real_of_int (b * 2 ^ nat e)
          = real_of_int j * 2 powi s * 2 powi (- e)"
    by (simp only: scaled_ratio [OF assms(2)] rep)
  also have "\<dots> = real_of_int j * 2 powi (s - e)"
    by (simp add: power_int_diff power_int_minus field_simps)
  also have "\<dots> = real_of_int X" by (simp add: X_def pw)
  finally have "real_of_int (a * 2 ^ nat (- e)) = real_of_int (X * (b * 2 ^ nat e))"
    using assms(2) by (simp add: field_simps)
  then have "a * 2 ^ nat (- e) = X * (b * 2 ^ nat e)" by linarith
  moreover have "0 < b * 2 ^ nat e" using assms(2) by simp
  ultimately have "round_half_even (a * 2 ^ nat (- e)) (b * 2 ^ nat e) = X"
    by (intro round_half_even_exact)
  then have "dval (fl_ratio a b) = real_of_int X * 2 powi e" by (simp add: fl dval_def)
  also have "\<dots> = real_of_int j * (2 powi (s - e) * 2 powi e)" by (simp add: X_def pw)
  also have "\<dots> = real_of_int j * 2 powi s" by (simp add: power_int_add [symmetric])
  finally show ?thesis by (simp add: rep)
qed


lemma fl_ratio_exact:
  assumes "d \<noteq> 0"
    and rep: "real_of_int n / real_of_int d = real_of_int j * 2 powi s"
    and small: "\<bar>j\<bar> < 2 ^ 53"
  shows "dval (fl_ratio n d) = real_of_int n / real_of_int d"
proof (cases "n = 0")
  case True
  then show ?thesis by (simp add: fl_ratio_def dval_def)
next
  case False
  have fl: "dval (fl_ratio n d) = real_of_int (sgn n * sgn d) * dval (fl_ratio \<bar>n\<bar> \<bar>d\<bar>)"
    by (rule fl_ratio_sign [OF False assms(1)])
  have 1: "real_of_int \<bar>n\<bar> / real_of_int \<bar>d\<bar> = \<bar>real_of_int n / real_of_int d\<bar>"
    by (simp only: of_int_abs abs_divide)
  have 2: "\<bar>real_of_int j * 2 powi s\<bar> = real_of_int \<bar>j\<bar> * 2 powi s"
    by (simp only: abs_mult of_int_abs) simp
  have 3: "real_of_int \<bar>n\<bar> / real_of_int \<bar>d\<bar> = real_of_int \<bar>j\<bar> * 2 powi s"
    by (simp only: 1 rep 2)
  have an: "0 < \<bar>n\<bar>" and ad: "0 < \<bar>d\<bar>" using False assms(1) by simp_all
  have pos: "dval (fl_ratio \<bar>n\<bar> \<bar>d\<bar>) = real_of_int \<bar>n\<bar> / real_of_int \<bar>d\<bar>"
    by (rule fl_ratio_pos_exact [OF an ad 3 small])
  have val: "dval (fl_ratio n d)
               = real_of_int (sgn n * sgn d) * (real_of_int \<bar>n\<bar> / real_of_int \<bar>d\<bar>)"
    by (simp only: fl pos)
  consider "0 < n" "0 < d" | "0 < n" "d < 0" | "n < 0" "0 < d" | "n < 0" "d < 0"
    using False assms(1) by linarith
  then show ?thesis
  proof cases
    case 1
    then have "sgn n * sgn d = 1" "\<bar>n\<bar> = n" "\<bar>d\<bar> = d" by simp_all
    then show ?thesis by (simp add: val)
  next
    case 2
    then have "sgn n * sgn d = - 1" "\<bar>n\<bar> = n" "\<bar>d\<bar> = - d" by simp_all
    then show ?thesis by (simp add: val)
  next
    case 3
    then have "sgn n * sgn d = - 1" "\<bar>n\<bar> = - n" "\<bar>d\<bar> = d" by simp_all
    then show ?thesis by (simp add: val)
  next
    case 4
    then have "sgn n * sgn d = 1" "\<bar>n\<bar> = - n" "\<bar>d\<bar> = - d" by simp_all
    then show ?thesis by (simp add: val)
  qed
qed

lemma dval_shift: "dval (Double m (e + s)) = dval (Double m e) * 2 powi s"
  by (simp add: dval_def power_int_add)

lemma js_div_value:
  assumes "m2 \<noteq> 0"
  shows "\<exists>q. js_div (Double m1 e1) (Double m2 e2) = Some q
             \<and> dval q = dval (fl_ratio m1 m2) * 2 powi (e1 - e2)"
proof (cases "fl_ratio m1 m2")
  case (Double m e)
  have "dval (Double m (e + e1 - e2)) = dval (Double m e) * 2 powi (e1 - e2)"
    using dval_shift [of m e "e1 - e2"] by (simp add: algebra_simps)
  then show ?thesis using assms Double by (simp add: js_div_def)
qed

lemma js_mul_value:
  "dval (js_mul (Double m1 e1) (Double m2 e2)) = dval (fl_ratio (m1 * m2) 1) * 2 powi (e1 + e2)"
proof (cases "fl_ratio (m1 * m2) 1")
  case (Double m e)
  have "dval (Double m (e + e1 + e2)) = dval (Double m e) * 2 powi (e1 + e2)"
    using dval_shift [of m e "e1 + e2"] by (simp add: algebra_simps)
  then show ?thesis using Double by (simp add: js_mul_def)
qed

text \<open>Each operation is within half a unit in the last place of the exact result.\<close>

lemma js_div_error:
  assumes "dval y \<noteq> 0"
  shows "\<exists>q. js_div x y = Some q \<and> \<bar>dval q - dval x / dval y\<bar> \<le> \<bar>dval x / dval y\<bar> / 2 ^ 53"
proof (cases x)
  case x: (Double m1 e1)
  show ?thesis
  proof (cases y)
    case y: (Double m2 e2)
    have m2: "m2 \<noteq> 0" using assms by (auto simp add: y dval_def)
    obtain q where q: "js_div (Double m1 e1) (Double m2 e2) = Some q"
      "dval q = dval (fl_ratio m1 m2) * 2 powi (e1 - e2)"
      using js_div_value [OF m2] by blast
    have quot: "dval x / dval y = real_of_int m1 / real_of_int m2 * 2 powi (e1 - e2)"
      by (simp add: x y dval_def power_int_diff)
    have "dval q - dval x / dval y
            = (dval (fl_ratio m1 m2) - real_of_int m1 / real_of_int m2) * 2 powi (e1 - e2)"
      unfolding q(2) quot by (rule left_diff_distrib [symmetric])
    then have "\<bar>dval q - dval x / dval y\<bar>
            = \<bar>dval (fl_ratio m1 m2) - real_of_int m1 / real_of_int m2\<bar> * 2 powi (e1 - e2)"
      by (simp add: abs_mult)
    also have "\<dots> \<le> \<bar>real_of_int m1 / real_of_int m2\<bar> / 2 ^ 53 * 2 powi (e1 - e2)"
      by (intro mult_right_mono fl_ratio_error [OF m2]) simp
    also have "\<dots> = \<bar>dval x / dval y\<bar> / 2 ^ 53"
      by (simp add: quot abs_mult)
    finally show ?thesis using q(1) by (auto simp add: x y)
  qed
qed

lemma js_mul_error:
  "\<bar>dval (js_mul x y) - dval x * dval y\<bar> \<le> \<bar>dval x * dval y\<bar> / 2 ^ 53"
proof (cases x)
  case x: (Double m1 e1)
  show ?thesis
  proof (cases y)
    case y: (Double m2 e2)
    have prod: "dval x * dval y = real_of_int (m1 * m2) / real_of_int 1 * 2 powi (e1 + e2)"
      by (simp add: x y dval_def power_int_add)
    have "dval (js_mul x y) - dval x * dval y
            = (dval (fl_ratio (m1 * m2) 1) - real_of_int (m1 * m2) / real_of_int 1) * 2 powi (e1 + e2)"
      unfolding prod unfolding x y js_mul_value by (rule left_diff_distrib [symmetric])
    then have "\<bar>dval (js_mul x y) - dval x * dval y\<bar>
            = \<bar>dval (fl_ratio (m1 * m2) 1) - real_of_int (m1 * m2) / real_of_int 1\<bar> * 2 powi (e1 + e2)"
      by (simp add: abs_mult)
    also have "\<dots> \<le> \<bar>real_of_int (m1 * m2) / real_of_int 1\<bar> / 2 ^ 53 * 2 powi (e1 + e2)"
      by (intro mult_right_mono fl_ratio_error) simp_all
    also have "\<dots> = \<bar>dval x * dval y\<bar> / 2 ^ 53"
      unfolding prod by (simp add: abs_mult)
    finally show ?thesis .
  qed
qed

lemma powi_cancel_right: "a * 2 powi k * 2 powi (- k) = (a::real)"
  by (simp add: mult.assoc power_int_minus)

lemma powi_diff2: "(2::real) powi s * 2 powi (- k) = 2 powi (s - k)"
  by (simp add: power_int_diff power_int_minus divide_inverse)

lemma combine_errors:
  fixes u v w1 w2 g :: real
  assumes "w2 \<le> u / 2 ^ 53" and "v \<le> u + u / 2 ^ 53" and "w1 \<le> 100 * v / 2 ^ 53"
    and "g \<le> w1 + 100 * w2" and "0 \<le> u"
  shows "g \<le> 100 * u / 2 ^ 51"
  using assms by simp

text \<open>A result that a double can hold is computed exactly.\<close>

lemma js_div_exact:
  assumes "dval y \<noteq> 0"
    and rep: "dval x / dval y = real_of_int j * 2 powi s"
    and small: "\<bar>j\<bar> < 2 ^ 53"
  shows "\<exists>q. js_div x y = Some q \<and> dval q = dval x / dval y"
proof (cases x)
  case x: (Double m1 e1)
  show ?thesis
  proof (cases y)
    case y: (Double m2 e2)
    have m2: "m2 \<noteq> 0" using assms(1) by (auto simp add: y dval_def)
    obtain q where q: "js_div (Double m1 e1) (Double m2 e2) = Some q"
      "dval q = dval (fl_ratio m1 m2) * 2 powi (e1 - e2)"
      using js_div_value [OF m2] by blast
    have quot: "dval x / dval y = real_of_int m1 / real_of_int m2 * 2 powi (e1 - e2)"
      by (simp add: x y dval_def power_int_diff)
    have "real_of_int m1 / real_of_int m2 = dval x / dval y * 2 powi (- (e1 - e2))"
      unfolding quot by (simp only: powi_cancel_right)
    also have "\<dots> = real_of_int j * (2 powi s * 2 powi (- (e1 - e2)))"
      unfolding rep by simp
    also have "\<dots> = real_of_int j * 2 powi (s - (e1 - e2))"
      by (simp only: powi_diff2)
    finally have "real_of_int m1 / real_of_int m2 = real_of_int j * 2 powi (s - (e1 - e2))" .
    then have "dval (fl_ratio m1 m2) = real_of_int m1 / real_of_int m2"
      by (rule fl_ratio_exact [OF m2 _ small])
    then have "dval q = dval x / dval y" by (simp only: q(2) quot)
    then show ?thesis using q(1) by (auto simp add: x y)
  qed
qed

lemma js_mul_exact:
  assumes rep: "dval x * dval y = real_of_int j * 2 powi s"
    and small: "\<bar>j\<bar> < 2 ^ 53"
  shows "dval (js_mul x y) = dval x * dval y"
proof (cases x)
  case x: (Double m1 e1)
  show ?thesis
  proof (cases y)
    case y: (Double m2 e2)
    have prod: "dval x * dval y = real_of_int (m1 * m2) / real_of_int 1 * 2 powi (e1 + e2)"
      by (simp add: x y dval_def power_int_add)
    have "real_of_int (m1 * m2) / real_of_int 1 = dval x * dval y * 2 powi (- (e1 + e2))"
      unfolding prod by (simp only: powi_cancel_right)
    also have "\<dots> = real_of_int j * (2 powi s * 2 powi (- (e1 + e2)))"
      unfolding rep by simp
    also have "\<dots> = real_of_int j * 2 powi (s - (e1 + e2))"
      by (simp only: powi_diff2)
    finally have "dval (fl_ratio (m1 * m2) 1) = real_of_int (m1 * m2) / real_of_int 1"
      using small by (intro fl_ratio_exact [where j = j and s = "s - (e1 + e2)"]) simp_all
    then show ?thesis
      unfolding prod unfolding x y js_mul_value by simp
  qed
qed

lemma dval_int: "dval (Double c 0) = real_of_int c"
  by (simp add: dval_def)

lemma percent_error:
  assumes "t \<noteq> 0"
  shows "\<exists>p. map_option (\<lambda>q. js_mul q (Double 100 0)) (js_div (Double c 0) (Double t 0)) = Some p
           \<and> \<bar>dval p - 100 * real_of_int c / real_of_int t\<bar>
                \<le> \<bar>100 * real_of_int c / real_of_int t\<bar> / 2 ^ 51"
proof -
  define x where "x = real_of_int c / real_of_int t"
  have t: "dval (Double t 0) \<noteq> 0" using assms by (simp add: dval_int)
  obtain q where q: "js_div (Double c 0) (Double t 0) = Some q"
    and qe: "\<bar>dval q - x\<bar> \<le> \<bar>x\<bar> / 2 ^ 53"
    using js_div_error [OF t, of "Double c 0"] by (auto simp add: dval_int x_def)
  define p where "p = js_mul q (Double 100 0)"
  have pe: "\<bar>dval p - dval q * 100\<bar> \<le> \<bar>dval q * 100\<bar> / 2 ^ 53"
    using js_mul_error [of q "Double 100 0"] by (simp add: p_def dval_int)
  have v: "\<bar>dval q\<bar> \<le> \<bar>x\<bar> + \<bar>x\<bar> / 2 ^ 53" using qe by linarith
  have w1: "\<bar>dval p - dval q * 100\<bar> \<le> 100 * \<bar>dval q\<bar> / 2 ^ 53"
    using pe by (simp add: abs_mult)
  have g: "\<bar>dval p - 100 * x\<bar> \<le> \<bar>dval p - dval q * 100\<bar> + 100 * \<bar>dval q - x\<bar>"
  proof -
    have "dval p - 100 * x = (dval p - dval q * 100) + 100 * (dval q - x)" by simp
    then have "\<bar>dval p - 100 * x\<bar> \<le> \<bar>dval p - dval q * 100\<bar> + \<bar>100 * (dval q - x)\<bar>"
      by (simp only: abs_triangle_ineq)
    moreover have "\<bar>100 * (dval q - x)\<bar> = 100 * \<bar>dval q - x\<bar>"
      by (simp only: abs_mult abs_numeral)
    ultimately show ?thesis by (simp only:)
  qed
  have "\<bar>dval p - 100 * x\<bar> \<le> 100 * \<bar>x\<bar> / 2 ^ 51"
    by (rule combine_errors [OF qe v w1 g]) simp
  moreover have "\<bar>100 * x\<bar> = 100 * \<bar>x\<bar>" by (simp add: abs_mult)
  moreover have "map_option (\<lambda>q. js_mul q (Double 100 0)) (js_div (Double c 0) (Double t 0)) = Some p" by (simp add: q p_def)
  ultimately show ?thesis by (auto simp add: x_def)
qed

lemma percent_exact:
  assumes "\<bar>100 * c\<bar> < 2 ^ 53"
  shows "\<exists>p. map_option (\<lambda>q. js_mul q (Double 100 0)) (js_div (Double c 0) (Double 1 0)) = Some p \<and> dval p = 100 * real_of_int c"
proof -
  have one: "dval (Double 1 0) \<noteq> 0" by (simp add: dval_int)
  have c: "\<bar>c\<bar> < 2 ^ 53" using assms by linarith
  have "dval (Double c 0) / dval (Double 1 0) = real_of_int c * 2 powi 0"
    by (simp add: dval_int)
  from js_div_exact [OF one this c]
  obtain q where q: "js_div (Double c 0) (Double 1 0) = Some q" and qv: "dval q = real_of_int c"
    by (auto simp add: dval_int)
  have "dval q * dval (Double 100 0) = real_of_int (100 * c) * 2 powi 0"
    by (simp add: qv dval_int)
  from js_mul_exact [OF this assms]
  have "dval (js_mul q (Double 100 0)) = 100 * real_of_int c"
    by (simp add: qv dval_int)
  then show ?thesis by (simp add: q)
qed


section \<open>The checksum\<close>

lemma ToUint32_ToInt32: "ToUint32 (ToInt32 x) = ToUint32 x"
  by (simp add: ToInt32_def ToUint32_def mod_diff_left_eq)

lemma ToInt32_mask: "ToInt32 0xFFFFFFFF = - 1"
  by (simp add: ToInt32_def)

lemma js_and_mask: "js_and x 0xFFFFFFFF = ToInt32 x"
  by (simp add: js_and_def ToInt32_mask)

lemma ToUint32_shl5: "ToUint32 (js_shl x 5) = ToUint32 (x * 32)"
proof -
  have "ToUint32 (js_shl x 5) = ToUint32 (ToInt32 x * 32)"
    by (simp add: js_shl_def ToUint32_ToInt32)
  also have "\<dots> = ToUint32 (ToUint32 (ToInt32 x) * 32)"
    by (simp add: ToUint32_def mod_mult_left_eq)
  also have "\<dots> = ToUint32 (x * 32)"
    by (simp add: ToUint32_ToInt32) (simp add: ToUint32_def mod_mult_left_eq)
  finally show ?thesis .
qed

lemma spec_step_alt: "spec_step h c = ToUint32 (h * 32 + h + int c)"
  by (simp add: spec_step_def ToUint32_def push_bit_eq_mult)

lemma ToUint32_sum3: "ToUint32 (a + b + c) = ToUint32 (ToUint32 a + b + c)"
  unfolding ToUint32_def by (simp only: add.assoc mod_add_left_eq)

lemma unsigned_step: "js_ushr0 ((js_shl h 5 + h) + int c) = spec_step h c"
  unfolding js_ushr0_def spec_step_alt
  by (subst ToUint32_sum3, subst ToUint32_shl5, subst ToUint32_sum3 [symmetric]) simp

lemma masked_step: "ToUint32 (js_and ((js_shl h 5 + h) + int c) 0xFFFFFFFF) = spec_step h c"
  unfolding js_and_mask ToUint32_ToInt32 spec_step_alt
  by (subst ToUint32_sum3, subst ToUint32_shl5, subst ToUint32_sum3 [symmetric]) simp

lemma spec_step_mod: "spec_step (ToUint32 h) c = spec_step h c"
proof -
  let ?m = "2 ^ 32 :: int"
  have 1: "(h mod ?m) mod ?m = h mod ?m" by (rule mod_mod_trivial)
  have 2: "(h mod ?m * 32) mod ?m = (h * 32) mod ?m" by (rule mod_mult_cong [OF 1 refl])
  have 3: "(h mod ?m * 32 + h mod ?m) mod ?m = (h * 32 + h) mod ?m" by (rule mod_add_cong [OF 2 1])
  have "(h mod ?m * 32 + h mod ?m + int c) mod ?m = (h * 32 + h + int c) mod ?m"
    by (rule mod_add_cong [OF 3 refl])
  then show ?thesis
    unfolding spec_step_alt ToUint32_def .
qed

lemma djb2_unsigned_foldl: "djb2_unsigned h cs = foldl spec_step h cs"
  by (induction cs arbitrary: h) (simp_all add: unsigned_step)

lemma djb2_masked_foldl: "ToUint32 (djb2_masked h cs) = foldl spec_step (ToUint32 h) cs"
proof (induction cs arbitrary: h)
  case Nil
  show ?case by simp
next
  case (Cons c cs)
  show ?case
    by (simp add: Cons.IH masked_step spec_step_mod)
qed

lemma foldl_spec_step_fixed:
  "ToUint32 h = h \<Longrightarrow> ToUint32 (foldl spec_step h cs) = foldl spec_step h cs"
proof (induction cs arbitrary: h)
  case Nil
  then show ?case by simp
next
  case (Cons c cs)
  have "ToUint32 (spec_step h c) = spec_step h c"
    by (simp add: spec_step_def ToUint32_def)
  then show ?case using Cons.IH by simp
qed

lemma calculatedSignature_spec: "calculatedSignature message key = spec_checksum message key"
proof -
  have "ToUint32 (5381::int) = 5381" by (simp add: ToUint32_def)
  then have "ToUint32 (foldl spec_step 5381 (message @ key)) = foldl spec_step 5381 (message @ key)"
    by (rule foldl_spec_step_fixed)
  then show ?thesis
    by (simp add: calculatedSignature_def spec_checksum_def js_ushr0_def djb2_unsigned_foldl)
qed

lemma expectedHash_spec: "expectedHash message key = spec_checksum message key"
proof -
  have "expectedHash message key = foldl spec_step (ToUint32 5381) (message @ key)"
    unfolding expectedHash_def js_ushr0_def by (rule djb2_masked_foldl)
  then show ?thesis
    by (simp add: spec_checksum_def ToUint32_def)
qed

text \<open>
  Claim C9. The checksum that either verifier computes is the djb2 recurrence of the
  specification, from 5381, over the characters of the message followed by those of
  the key, modulo \<open>2 ^ 32\<close>; the verifier is a function of the payload, the key and the
  signature alone, and accepts exactly when that checksum is the signature supplied
  (read as an integer in version 6.0, as eight hexadecimal digits in version 6.1).
  A character counts with its UTF-16 code, as \<open>charCodeAt\<close> gives it.
\<close>

theorem checksum_is_djb2:
  "calculatedSignature message key = spec_checksum message key
   \<and> expectedHash message key = spec_checksum message key
   \<and> verifyHMAC stringify (Some key) pl (Some sig) =
       (if key = [] then True
        else if sig = 0 then False
        else spec_checksum (stringify (pl\<lparr>p_signature := None\<rparr>)) key = sig)
   \<and> verifyHMAC_v61 key data (Some text) =
       (if key = [] then True
        else hex8 (spec_checksum (message_v61 data) key) = text)"
  by (simp add: calculatedSignature_spec expectedHash_spec verifyHMAC_def verifyHMAC_v61_def
      truthy_str_def truthy_num_def parseInt_def Let_def)

section \<open>Grades, scores and percentages\<close>

lemma gradeScore_spec: "gradeScore duration distance stops = spec_score duration distance stops"
  by (simp add: gradeScore_def spec_score_def clamp_def indicator_def Let_def mult.commute [of stops 5])

text \<open>
  Claim C5. Under the penalty policy a walk-end on an existing session, with the
  counters duration, distance and stopCount in the device's status row, answers and
  stores the score clamp(100 - 5 * stopCount - 20 * [duration < 900] - 15 * [distance < 500], 0, 100),
  which lies between 0 and 100.
\<close>

theorem penalty_score_spec:
  assumes "walk_sessions s walk_id = Some w"
    and "fails SelectStatus = None" and "fails SelectWalk = None" and "fails UpdateWalk = None"
    and "device_status s deviceId = Some st"
    and "st_walk_duration st = Some duration"
    and "st_walk_distance st = Some distance"
    and "st_walk_stops st = Some stopCount"
  shows "fst (walk_end fails now deviceId walk_id s) =
           Response 200 (WalkEndOk walk_id (grade_of_score (spec_score duration distance stopCount))
             (spec_score duration distance stopCount) (round_div duration 60) distance)
         \<and> map_option ws_grade_score (walk_sessions (fst (snd (walk_end fails now deviceId walk_id s))) walk_id)
             = Some (Some (spec_score duration distance stopCount))
         \<and> gradeScore duration distance stopCount = spec_score duration distance stopCount
         \<and> 0 \<le> spec_score duration distance stopCount
         \<and> spec_score duration distance stopCount \<le> 100"
  using assms
  by (simp add: walk_end_def Let_def member_def or_num_def gradeScore_spec)
     (simp add: spec_score_def clamp_def)

theorem penalty_score_spec_witness:
  "fst (walk_end no_faults 5000000 (js ''c1'') 7
      (empty_db\<lparr> device_status := [js ''c1'' \<mapsto> status_with_counters 800 600 2],
                 walk_sessions := [7 \<mapsto> ended_walk] \<rparr>))
     = Response 200 (WalkEndOk 7 Grade_B 70 13 600)
   \<and> spec_score 800 600 2 = 70 \<and> spec_score 800 600 10 = 30 \<and> spec_score 800 600 30 = 0"
  using penalty_score_spec [of "empty_db\<lparr> device_status := [js ''c1'' \<mapsto> status_with_counters 800 600 2],
                 walk_sessions := [7 \<mapsto> ended_walk] \<rparr>" 7 ended_walk no_faults "js ''c1''"
                 "status_with_counters 800 600 2" 800 600 2 5000000]
  by (simp add: no_faults_def empty_db_def status_with_counters_def spec_score_def clamp_def
      indicator_def grade_of_score_def round_div_def)

text \<open>
  Claim C6. For every score the grade letter follows the descending, non-strict
  thresholds: A from 90, B from 70, C from 50, F below; so 95, 70, 50 and 49 give
  A, B, C and F. Both the grade of a supplied score (version 6.1) and the grade of the
  penalty score (version 6.0) do so.
\<close>

theorem grade_letter_thresholds:
  "grade_v61 (Some score) = spec_grade score
   \<and> grade_of_score n = spec_grade (real_of_int n)
   \<and> grade_v61 (Some 95) = Grade_A \<and> grade_v61 (Some 70) = Grade_B
   \<and> grade_v61 (Some 50) = Grade_C \<and> grade_v61 (Some 49) = Grade_F
   \<and> grade_of_score 95 = Grade_A \<and> grade_of_score 70 = Grade_B
   \<and> grade_of_score 50 = Grade_C \<and> grade_of_score 49 = Grade_F"
  by (simp add: grade_v61_def grade_of_score_def spec_grade_def or_num_def Let_def)

text \<open>
  Claim C7, as amended. For whole second counts below \<open>2 ^ 53\<close> in magnitude, the
  divisor of both percentages is \<open>duration_seconds || 1\<close>: one second when the total
  duration is zero, the total duration itself otherwise, which is max(1, total) when
  the total is not negative. The carried and the actual-walk percentage are
  \<open>(seconds / divisor) * 100\<close> in double arithmetic: within a relative error of
  \<open>2 ^ -51\<close> of 100 * seconds / divisor, and exactly 100 * seconds when the total
  duration is zero and 100 * seconds is below \<open>2 ^ 53\<close>.
\<close>

theorem walk_percentages_double:
  assumes "wd_duration_seconds walkData = Some duration"
    and "wd_carried_seconds walkData = Some carried"
    and "wd_actual_walk_seconds walkData = Some actual"
    and "\<bar>duration\<bar> < 2 ^ 53" and "\<bar>carried\<bar> < 2 ^ 53" and "\<bar>actual\<bar> < 2 ^ 53"
    and "divisor = (if duration = 0 then 1 else duration)"
  shows "totalSeconds walkData = divisor
       \<and> (0 \<le> duration \<longrightarrow> divisor = max 1 duration
             \<and> 100 * real_of_int carried / real_of_int divisor = spec_percent carried duration
             \<and> 100 * real_of_int actual / real_of_int divisor = spec_percent actual duration)
       \<and> (\<exists>p a. carriedPercent walkData = Some p \<and> actualWalkPercent walkData = Some a
             \<and> \<bar>dval p - 100 * real_of_int carried / real_of_int divisor\<bar>
                   \<le> \<bar>100 * real_of_int carried / real_of_int divisor\<bar> / 2 ^ 51
             \<and> \<bar>dval a - 100 * real_of_int actual / real_of_int divisor\<bar>
                   \<le> \<bar>100 * real_of_int actual / real_of_int divisor\<bar> / 2 ^ 51
             \<and> (duration = 0 \<and> \<bar>100 * carried\<bar> < 2 ^ 53 \<longrightarrow> dval p = 100 * real_of_int carried)
             \<and> (duration = 0 \<and> \<bar>100 * actual\<bar> < 2 ^ 53 \<longrightarrow> dval a = 100 * real_of_int actual))"
proof -
  have t: "totalSeconds walkData = divisor"
    using assms(1,7) by (simp add: totalSeconds_def or_num_def)
  have nz: "divisor \<noteq> 0" using assms(7) by simp
  have s: "0 \<le> duration \<longrightarrow> divisor = max 1 duration
             \<and> 100 * real_of_int carried / real_of_int divisor = spec_percent carried duration
             \<and> 100 * real_of_int actual / real_of_int divisor = spec_percent actual duration"
    using assms(7) by (auto simp add: spec_percent_def max_def)
  have cp: "carriedPercent walkData =
      map_option (\<lambda>q. js_mul q (Double 100 0)) (js_div (Double carried 0) (Double divisor 0))"
    using assms(2) by (simp add: carriedPercent_def t or_num_def)
  have ap: "actualWalkPercent walkData =
      map_option (\<lambda>q. js_mul q (Double 100 0)) (js_div (Double actual 0) (Double divisor 0))"
    using assms(3) by (simp add: actualWalkPercent_def t or_num_def)
  obtain p where p: "carriedPercent walkData = Some p"
    "\<bar>dval p - 100 * real_of_int carried / real_of_int divisor\<bar>
       \<le> \<bar>100 * real_of_int carried / real_of_int divisor\<bar> / 2 ^ 51"
    using percent_error [OF nz, of carried] unfolding cp by blast
  obtain a where a: "actualWalkPercent walkData = Some a"
    "\<bar>dval a - 100 * real_of_int actual / real_of_int divisor\<bar>
       \<le> \<bar>100 * real_of_int actual / real_of_int divisor\<bar> / 2 ^ 51"
    using percent_error [OF nz, of actual] unfolding ap by blast
  have pe: "duration = 0 \<and> \<bar>100 * carried\<bar> < 2 ^ 53 \<longrightarrow> dval p = 100 * real_of_int carried"
  proof
    assume h: "duration = 0 \<and> \<bar>100 * carried\<bar> < 2 ^ 53"
    then have "divisor = 1" using assms(7) by simp
    then show "dval p = 100 * real_of_int carried"
      using percent_exact [of carried] h p(1) unfolding cp by auto
  qed
  have ae: "duration = 0 \<and> \<bar>100 * actual\<bar> < 2 ^ 53 \<longrightarrow> dval a = 100 * real_of_int actual"
  proof
    assume h: "duration = 0 \<and> \<bar>100 * actual\<bar> < 2 ^ 53"
    then have "divisor = 1" using assms(7) by simp
    then show "dval a = 100 * real_of_int actual"
      using percent_exact [of actual] h a(1) unfolding ap by auto
  qed
  from t s p a pe ae show ?thesis by blast
qed

theorem walk_percentages_double_witness:
  "map_option dval (carriedPercent (bare_walk_data\<lparr> wd_duration_seconds := Some 0,
       wd_carried_seconds := Some 30, wd_actual_walk_seconds := Some 0 \<rparr>)) = Some 3000
   \<and> totalSeconds (bare_walk_data\<lparr> wd_duration_seconds := Some 0,
       wd_carried_seconds := Some 30, wd_actual_walk_seconds := Some 0 \<rparr>) = 1"
  using walk_percentages_double [of "bare_walk_data\<lparr> wd_duration_seconds := Some 0,
       wd_carried_seconds := Some 30, wd_actual_walk_seconds := Some 0 \<rparr>" 0 30 0 1]
  by (auto simp add: bare_walk_data_def)

text \<open>
  The percentages are not the exact quotient, and the divisor is not max(1, total) for
  a negative total: 7 s carried of 100 s gives 7.000000000000001 (the double next
  above 7), 29 s walked of 100 s gives 28.999999999999996, and 1 s carried of -5 s
  gives -20 where 100 * 1 / max(1, -5) is 100.
\<close>

lemma percent_of_7_in_100:
  "carriedPercent (bare_walk_data\<lparr> wd_duration_seconds := Some 100, wd_carried_seconds := Some 7,
       wd_actual_walk_seconds := Some 29 \<rparr>) = Some (Double 7881299347898369 (- 50))"
  by code_simp

lemma percent_of_29_in_100:
  "actualWalkPercent (bare_walk_data\<lparr> wd_duration_seconds := Some 100, wd_carried_seconds := Some 7,
       wd_actual_walk_seconds := Some 29 \<rparr>) = Some (Double 8162774324609023 (- 48))"
  by code_simp

lemma percent_of_1_in_minus_5:
  "map_option dval (carriedPercent (bare_walk_data\<lparr> wd_duration_seconds := Some (- 5),
       wd_carried_seconds := Some 1 \<rparr>)) = Some (- 20)"
proof -
  have "carriedPercent (bare_walk_data\<lparr> wd_duration_seconds := Some (- 5),
       wd_carried_seconds := Some 1 \<rparr>) = Some (Double (- 5629499534213120) (- 48))"
    by code_simp
  then show ?thesis by (simp add: dval_def power_int_def power_divide)
qed

theorem walk_percentages_not_exact:
  "map_option dval (carriedPercent (bare_walk_data\<lparr> wd_duration_seconds := Some 100,
       wd_carried_seconds := Some 7, wd_actual_walk_seconds := Some 29 \<rparr>)) = Some (7 + 1 / 2 ^ 50)
   \<and> spec_percent 7 100 = 7
   \<and> map_option dval (actualWalkPercent (bare_walk_data\<lparr> wd_duration_seconds := Some 100,
       wd_carried_seconds := Some 7, wd_actual_walk_seconds := Some 29 \<rparr>)) = Some (29 - 1 / 2 ^ 48)
   \<and> spec_percent 29 100 = 29
   \<and> map_option dval (carriedPercent (bare_walk_data\<lparr> wd_duration_seconds := Some (- 5),
       wd_carried_seconds := Some 1 \<rparr>)) = Some (- 20)
   \<and> spec_percent 1 (- 5) = 100"
  by (simp add: percent_of_7_in_100 percent_of_29_in_100 percent_of_1_in_minus_5 dval_def
      power_int_def power_divide spec_percent_def)

section \<open>Ending a walk\<close>

text \<open>
  Claim C3, as amended. In the gateway of version 6.0 a walk-end whose walk id names no
  session answers 404 and leaves the store as it was: the two calls it makes are reads.
\<close>

theorem walk_end_unknown_id:
  assumes "walk_sessions s walk_id = None"
  shows "walk_end fails now deviceId walk_id s =
           (Response 404 (ErrorBody ''Walk session not found''), s, [SelectStatus, SelectWalk])
         \<and> filter is_write (snd (snd (walk_end fails now deviceId walk_id s))) = []"
  using assms
  by (simp add: walk_end_def is_write_def split: option.splits)

theorem walk_end_unknown_id_witness:
  "walk_sessions used_db 8 = None
   \<and> walk_end no_faults 5000000 (js ''c1'') 8 used_db =
       (Response 404 (ErrorBody ''Walk session not found''), used_db, [SelectStatus, SelectWalk])"
  using walk_end_unknown_id [of used_db 8 no_faults 5000000 "js ''c1''"]
  by (simp add: used_db_def empty_db_def)

text \<open>
  The gateway of version 6.1 takes no walk id and looks no session up. On a store with
  no session at all its walk-end answers 200 and inserts a session; so does every
  walk-end whose start time can be computed and whose insert succeeds.
\<close>

lemma walk_end_v61_always_inserts:
  assumes "started_at now walkData = Some start" and "fails InsertWalk = None"
  shows "status_code (fst (walk_end_v61 True fails now deviceId walkData s)) = 200
       \<and> length (walk_sessions (fst (snd (walk_end_v61 True fails now deviceId walkData s))))
           = length (walk_sessions s) + 1"
  using assms by (simp add: walk_end_v61_def Let_def)

theorem walk_end_v61_inserts:
  "walk_sessions empty_db_v61 = []
   \<and> status_code (fst (walk_end_v61 True no_faults 5000000 (js ''c1'')
        (bare_walk_data\<lparr>wd_duration_seconds := Some 600\<rparr>) empty_db_v61)) = 200
   \<and> length (walk_sessions (fst (snd (walk_end_v61 True no_faults 5000000 (js ''c1'')
        (bare_walk_data\<lparr>wd_duration_seconds := Some 600\<rparr>) empty_db_v61)))) = 1
   \<and> snd (snd (walk_end_v61 True no_faults 5000000 (js ''c1'')
        (bare_walk_data\<lparr>wd_duration_seconds := Some 600\<rparr>) empty_db_v61)) = [InsertWalk]"
  by (simp add: walk_end_v61_def started_at_def bare_walk_data_def empty_db_v61_def no_faults_def
      Let_def)

text \<open>
  Claim C10. A walk-end that names a session which was ended before is accepted: with
  the session read and the update written, the answer is a success, and the end time,
  duration, distance, stop count, grade and score of the session are overwritten with
  the values computed now from the device's status row.
\<close>

theorem walk_end_again:
  assumes "walk_sessions s walk_id = Some w"
    and "ws_ended_at w = Some earlier"
    and "fails SelectWalk = None" and "fails UpdateWalk = None"
    and "status = (case fails SelectStatus of None \<Rightarrow> device_status s deviceId | Some e \<Rightarrow> None)"
    and "duration = or_num (member status st_walk_duration) 0"
    and "distance = or_num (member status st_walk_distance) 0"
    and "stops = or_num (member status st_walk_stops) 0"
    and "r = walk_end fails now deviceId walk_id s"
    and "w' = walk_sessions (fst (snd r)) walk_id"
  shows "fst r = Response 200 (WalkEndOk walk_id (grade_of_score (gradeScore duration distance stops))
                   (gradeScore duration distance stops) (round_div duration 60) distance)
         \<and> map_option ws_ended_at w' = Some (Some now)
         \<and> map_option ws_duration_seconds w' = Some (Some duration)
         \<and> map_option ws_distance_meters w' = Some (Some distance)
         \<and> map_option ws_stop_count w' = Some (Some stops)
         \<and> map_option ws_grade w' = Some (Some (grade_of_score (gradeScore duration distance stops)))
         \<and> map_option ws_grade_score w' = Some (Some (gradeScore duration distance stops))
         \<and> snd (snd r) = [SelectStatus, SelectWalk, UpdateWalk]"
  using assms
  by (simp add: walk_end_def Let_def)

theorem walk_end_again_witness:
  "ws_ended_at ended_walk = Some 2000000
   \<and> ws_grade ended_walk = Some Grade_A \<and> ws_grade_score ended_walk = Some 100
   \<and> fst (walk_end no_faults 5000000 (js ''c1'') 7
        (empty_db\<lparr> device_status := [js ''c1'' \<mapsto> status_with_counters 800 600 2],
                   walk_sessions := [7 \<mapsto> ended_walk] \<rparr>))
       = Response 200 (WalkEndOk 7 Grade_B 70 13 600)
   \<and> map_option ws_ended_at (walk_sessions (fst (snd (walk_end no_faults 5000000 (js ''c1'') 7
        (empty_db\<lparr> device_status := [js ''c1'' \<mapsto> status_with_counters 800 600 2],
                   walk_sessions := [7 \<mapsto> ended_walk] \<rparr>)))) 7) = Some (Some 5000000)
   \<and> map_option ws_grade (walk_sessions (fst (snd (walk_end no_faults 5000000 (js ''c1'') 7
        (empty_db\<lparr> device_status := [js ''c1'' \<mapsto> status_with_counters 800 600 2],
                   walk_sessions := [7 \<mapsto> ended_walk] \<rparr>)))) 7) = Some (Some Grade_B)"
  using walk_end_again [of "empty_db\<lparr> device_status := [js ''c1'' \<mapsto> status_with_counters 800 600 2],
                   walk_sessions := [7 \<mapsto> ended_walk] \<rparr>" 7 ended_walk 2000000 no_faults
        "Some (status_with_counters 800 600 2)" "js ''c1''" 800 600 2 _ 5000000, OF _ _ _ _ _ _ _ _ refl refl]
  by (simp add: no_faults_def empty_db_def status_with_counters_def ended_walk_def member_def
      or_num_def gradeScore_def grade_of_score_def round_div_def)

section \<open>Telemetry: rejection and the location record\<close>

text \<open>
  Claim C1, as amended. With a signing key configured and no signature in the payload,
  either verifier returns false; the telemetry handler of version 6.0 then rejects every
  payload that carries a device id with 401 \<open>Invalid signature\<close> and makes no call to the
  store.
\<close>

theorem missing_signature_rejected:
  assumes "truthy_str HMAC_KEY"
    and "p_signature pl = None"
    and "truthy_str (p_device_id pl)"
  shows "\<not> verifyHMAC stringify HMAC_KEY pl (p_signature pl)
         \<and> telemetry stringify HMAC_KEY fails now pl s =
             (Response 401 (ErrorBody ''Invalid signature''), s, [])
         \<and> verifyHMAC_v61 hmacKey data None = (hmacKey = [])"
  using assms
  by (auto simp add: verifyHMAC_def verifyHMAC_v61_def telemetry_def truthy_str_def truthy_num_def
      Let_def split: option.splits)

theorem missing_signature_rejected_witness:
  "truthy_str (Some (js ''k'')) \<and> p_signature bare_report = None
   \<and> truthy_str (p_device_id bare_report)
   \<and> telemetry toy_stringify (Some (js ''k'')) no_faults 5000000 bare_report empty_db =
       (Response 401 (ErrorBody ''Invalid signature''), empty_db, [])"
  using missing_signature_rejected [of "Some (js ''k'')" bare_report toy_stringify no_faults
      5000000 empty_db "js ''k''" bare_report_v61]
  by (simp add: truthy_str_def bare_report_def js_def)

text \<open>
  Two payloads without a signature, under a configured key, that are not answered with
  401. The handler of version 6.0 answers 400 when the device id is missing as well.
  The handler of version 6.1 calls the verifier only when the payload carries a
  signature: it accepts the unsigned report and writes its status row.
\<close>

lemma telemetry_v61_unsigned:
  assumes "d_signature data = None" and "d_device_id data = Some deviceId" and "deviceId \<noteq> []"
  shows "fst (telemetry_v61 hmacKey True fails now data s) = Response 200 (TelemetryOk_v61 now)"
  using assms by (simp add: telemetry_v61_def truthy_str_def)

theorem missing_signature_not_401:
  "fst (telemetry toy_stringify (Some (js ''k'')) no_faults 5000000
          (bare_report\<lparr>p_device_id := None\<rparr>) empty_db)
     = Response 400 (ErrorBody ''Missing device_id'')
   \<and> d_signature bare_report_v61 = None
   \<and> fst (telemetry_v61 (js ''k'') True no_faults 5000000 bare_report_v61 empty_db_v61)
       = Response 200 (TelemetryOk_v61 5000000)
   \<and> map_option s1_last_seen_at (device_status (fst (snd
         (telemetry_v61 (js ''k'') True no_faults 5000000 bare_report_v61 empty_db_v61))) (js ''c1''))
       = Some 5000000"
  by (simp add: telemetry_def telemetry_v61_def bare_report_def bare_report_v61_def js_def
      truthy_str_def truthy_bool_def truthy_num_def upsert_status_v61_def insert_location_v61_def
      insert_scratch_v61_def insert_anomaly_v61_def no_faults_def empty_db_v61_def)

lemma location_condition:
  "snd (insert_location fails deviceId pl (s, calls)) =
     (if member (p_gps pl) gps_valid = Some True
         \<and> (\<exists>la. member (p_gps pl) gps_lat = Some la \<and> la \<noteq> 0)
         \<and> (\<exists>lo. member (p_gps pl) gps_lon = Some lo \<and> lo \<noteq> 0)
      then calls @ [InsertLocation] else calls)"
  by (auto simp add: insert_location_def truthy_bool_def truthy_num_def split: option.splits)

lemma location_condition_v61:
  "snd (insert_location_v61 fails deviceId data (s, calls)) =
     (if d_gps_valid data = Some True
         \<and> (\<exists>la. d_latitude data = Some la \<and> la \<noteq> 0)
         \<and> (\<exists>lo. d_longitude data = Some lo \<and> lo \<noteq> 0)
      then calls @ [InsertLocation] else calls)"
  by (auto simp add: insert_location_v61_def truthy_bool_def truthy_num_def split: option.splits)

text \<open>
  Claim C8, at a failing input. A report with a true valid-fix flag, latitude 0 and
  longitude 37 is accepted, and neither gateway writes a LocationRecord for it: the
  handlers test the coordinates for truthiness, and 0 is falsy.
\<close>

theorem equator_fix_not_recorded:
  "member (p_gps equator_report) gps_valid = Some True
   \<and> member (p_gps equator_report) gps_lat = Some 0
   \<and> member (p_gps equator_report) gps_lon = Some 37
   \<and> telemetry toy_stringify None no_faults 5000000 equator_report empty_db =
       (Response 200 (TelemetryOk (js ''c1'') 5000000),
        empty_db\<lparr>device_status := [js ''c1'' \<mapsto> statusUpdate 5000000 equator_report]\<rparr>,
        [UpsertStatus])
   \<and> locations (fst (snd (telemetry toy_stringify None no_faults 5000000 equator_report empty_db))) = []
   \<and> locations (fst (snd (telemetry_v61 [] True no_faults 5000000 equator_report_v61 empty_db_v61))) = []
   \<and> snd (snd (telemetry_v61 [] True no_faults 5000000 equator_report_v61 empty_db_v61)) = [UpsertStatus]"
  by (simp add: telemetry_def telemetry_v61_def verifyHMAC_def equator_report_def
      equator_report_v61_def bare_report_def bare_report_v61_def js_def member_def
      truthy_str_def truthy_bool_def truthy_num_def upsert_status_def insert_location_def
      record_scratch_def record_anomaly_def upsert_status_v61_def insert_location_v61_def
      insert_scratch_v61_def insert_anomaly_v61_def no_faults_def empty_db_def empty_db_v61_def)

section \<open>Telemetry: the sequence of writes\<close>

lemma upsert_status_effect:
  "upsert_status fails now deviceId pl (s, calls) =
     ((case fails UpsertStatus of
         None \<Rightarrow> s\<lparr>device_status := (device_status s)(deviceId \<mapsto> statusUpdate now pl)\<rparr>
       | Some e \<Rightarrow> s), calls @ [UpsertStatus])"
  by (simp add: upsert_status_def)

lemma upsert_status_log:
  "anomaly_log (fst (upsert_status fails now deviceId pl (s, calls))) = anomaly_log s"
  by (simp add: upsert_status_def split: option.splits)

lemma insert_location_log:
  "anomaly_log (fst (insert_location fails deviceId pl (s, calls))) = anomaly_log s"
  by (simp add: insert_location_def split: option.splits)

lemma insert_location_status:
  "device_status (fst (insert_location fails deviceId pl (s, calls))) = device_status s"
  by (simp add: insert_location_def split: option.splits)

lemma record_scratch_log:
  "anomaly_log (fst (record_scratch fails now deviceId pl (s, calls))) = anomaly_log s"
  by (simp add: record_scratch_def Let_def split: option.splits)

lemma record_scratch_status:
  "device_status (fst (record_scratch fails now deviceId pl (s, calls))) = device_status s"
  by (simp add: record_scratch_def Let_def split: option.splits)

lemma record_anomaly_status:
  "device_status (fst (record_anomaly fails now deviceId pl (s, calls))) = device_status s"
  by (simp add: record_anomaly_def Let_def split: option.splits)

lemma record_scratch_calls:
  "snd (record_scratch fails now deviceId pl (s, calls)) =
     calls @ (if truthy_bool (member (p_scratch pl) scratch_detected)
              then [InsertScratch, UpsertScratchDaily] else [])"
  by (simp add: record_scratch_def Let_def)

lemma insert_location_calls:
  "snd (insert_location fails deviceId pl (s, calls)) =
     calls @ (if truthy_bool (member (p_gps pl) gps_valid) \<and> truthy_num (member (p_gps pl) gps_lat)
                 \<and> truthy_num (member (p_gps pl) gps_lon)
              then [InsertLocation] else [])"
  by (simp add: insert_location_def)

lemma record_anomaly_calls:
  "snd (record_anomaly fails now deviceId pl (s, calls)) =
     calls @ (if truthy_bool (member (p_health pl) health_anomaly)
              then (if existing_anomalies fails now deviceId (member (p_health pl) health_anomaly_type) s
                         \<in> {None, Some []}
                    then [SelectAnomaly, InsertAnomaly] else [SelectAnomaly])
              else [])"
  by (simp add: record_anomaly_def Let_def)

lemma existing_anomalies_cong:
  "fails' SelectAnomaly = fails SelectAnomaly \<Longrightarrow> anomaly_log s' = anomaly_log s \<Longrightarrow>
   existing_anomalies fails' now deviceId ty s' = existing_anomalies fails now deviceId ty s"
  by (simp add: existing_anomalies_def split: option.splits)

text \<open>An accepted report runs the four steps in order.\<close>

lemma telemetry_accepted:
  assumes "p_device_id pl = Some deviceId" and "deviceId \<noteq> []"
    and "verifyHMAC stringify HMAC_KEY pl (p_signature pl)"
  shows "telemetry stringify HMAC_KEY fails now pl s =
           (Response 200 (TelemetryOk deviceId now),
            record_anomaly fails now deviceId pl
              (record_scratch fails now deviceId pl
                (insert_location fails deviceId pl
                  (upsert_status fails now deviceId pl (s, [])))))"
  using assms by (simp add: telemetry_def)

lemma telemetry_calls:
  assumes "p_device_id pl = Some deviceId" and "deviceId \<noteq> []"
    and "verifyHMAC stringify HMAC_KEY pl (p_signature pl)"
  shows "snd (snd (telemetry stringify HMAC_KEY fails now pl s)) =
     [UpsertStatus]
     @ (if truthy_bool (member (p_gps pl) gps_valid) \<and> truthy_num (member (p_gps pl) gps_lat)
           \<and> truthy_num (member (p_gps pl) gps_lon)
        then [InsertLocation] else [])
     @ (if truthy_bool (member (p_scratch pl) scratch_detected)
        then [InsertScratch, UpsertScratchDaily] else [])
     @ (if truthy_bool (member (p_health pl) health_anomaly)
        then (if existing_anomalies fails now deviceId (member (p_health pl) health_anomaly_type) s
                   \<in> {None, Some []}
              then [SelectAnomaly, InsertAnomaly] else [SelectAnomaly])
        else [])"
proof -
  obtain s1 c1 where 1: "upsert_status fails now deviceId pl (s, []) = (s1, c1)"
    by (cases "upsert_status fails now deviceId pl (s, [])")
  obtain s2 c2 where 2: "insert_location fails deviceId pl (s1, c1) = (s2, c2)"
    by (cases "insert_location fails deviceId pl (s1, c1)")
  obtain s3 c3 where 3: "record_scratch fails now deviceId pl (s2, c2) = (s3, c3)"
    by (cases "record_scratch fails now deviceId pl (s2, c2)")
  have l1: "anomaly_log s1 = anomaly_log s" and k1: "c1 = [UpsertStatus]"
    using upsert_status_log [of fails now deviceId pl s "[]"] upsert_status_effect [of fails now deviceId pl s "[]"] 1
    by simp_all
  have l2: "anomaly_log s2 = anomaly_log s1"
    using insert_location_log [of fails deviceId pl s1 c1] 2 by simp
  have l3: "anomaly_log s3 = anomaly_log s2"
    using record_scratch_log [of fails now deviceId pl s2 c2] 3 by simp
  have e: "existing_anomalies fails now deviceId ty s3 = existing_anomalies fails now deviceId ty s" for ty
    by (rule existing_anomalies_cong) (simp_all add: l1 l2 l3)
  have k2: "c2 = snd (insert_location fails deviceId pl (s1, c1))" using 2 by simp
  have k3: "c3 = snd (record_scratch fails now deviceId pl (s2, c2))" using 3 by simp
  have "snd (snd (telemetry stringify HMAC_KEY fails now pl s)) =
          snd (record_anomaly fails now deviceId pl (s3, c3))"
    using assms by (simp add: telemetry_accepted 1 2 3)
  then show ?thesis
    unfolding record_anomaly_calls e k3 record_scratch_calls k2 insert_location_calls k1
    by simp
qed

lemma telemetry_status:
  assumes "p_device_id pl = Some deviceId" and "deviceId \<noteq> []"
    and "verifyHMAC stringify HMAC_KEY pl (p_signature pl)"
  shows "device_status (fst (snd (telemetry stringify HMAC_KEY fails now pl s))) =
           (case fails UpsertStatus of
              None \<Rightarrow> (device_status s)(deviceId \<mapsto> statusUpdate now pl)
            | Some e \<Rightarrow> device_status s)"
proof -
  obtain s1 c1 where 1: "upsert_status fails now deviceId pl (s, []) = (s1, c1)"
    by (cases "upsert_status fails now deviceId pl (s, [])")
  obtain s2 c2 where 2: "insert_location fails deviceId pl (s1, c1) = (s2, c2)"
    by (cases "insert_location fails deviceId pl (s1, c1)")
  obtain s3 c3 where 3: "record_scratch fails now deviceId pl (s2, c2) = (s3, c3)"
    by (cases "record_scratch fails now deviceId pl (s2, c2)")
  have "device_status (fst (snd (telemetry stringify HMAC_KEY fails now pl s))) = device_status s3"
    using assms by (simp add: telemetry_accepted 1 2 3 record_anomaly_status)
  also have "\<dots> = device_status s2"
    using record_scratch_status [of fails now deviceId pl s2 c2] 3 by simp
  also have "\<dots> = device_status s1"
    using insert_location_status [of fails deviceId pl s1 c1] 2 by simp
  also have "\<dots> = (case fails UpsertStatus of
              None \<Rightarrow> (device_status s)(deviceId \<mapsto> statusUpdate now pl)
            | Some e \<Rightarrow> device_status s)"
    using 1 by (auto simp add: upsert_status_effect split: option.splits)
  finally show ?thesis .
qed

text \<open>
  Claim C4. For an accepted report (device id present, signature verified) the answer is
  \<open>{status: ok}\<close> whichever calls to the store fail. The DeviceStatus upsert is the
  first call and, unless it fails itself, its row is in the store afterwards, also when
  the location insert fails. The calls that are made do not depend on which writes fail.
\<close>

theorem secondary_failures_recovered:
  assumes "p_device_id pl = Some deviceId" and "deviceId \<noteq> []"
    and "verifyHMAC stringify HMAC_KEY pl (p_signature pl)"
    and "r = telemetry stringify HMAC_KEY fails now pl s"
  shows "fst r = Response 200 (TelemetryOk deviceId now)
       \<and> take 1 (snd (snd r)) = [UpsertStatus]
       \<and> (fails UpsertStatus = None \<longrightarrow>
            device_status (fst (snd r)) deviceId = Some (statusUpdate now pl))
       \<and> (fails' SelectAnomaly = fails SelectAnomaly \<longrightarrow>
            snd (snd (telemetry stringify HMAC_KEY fails' now pl s)) = snd (snd r))"
proof -
  have a: "fst r = Response 200 (TelemetryOk deviceId now)"
    using assms by (simp add: telemetry_accepted)
  have b: "take 1 (snd (snd r)) = [UpsertStatus]"
    using assms(1-3) unfolding assms(4) by (simp add: telemetry_calls)
  have c: "fails UpsertStatus = None \<longrightarrow>
            device_status (fst (snd r)) deviceId = Some (statusUpdate now pl)"
    using assms(1-3) unfolding assms(4) by (simp add: telemetry_status)
  have d: "fails' SelectAnomaly = fails SelectAnomaly \<longrightarrow>
            snd (snd (telemetry stringify HMAC_KEY fails' now pl s)) = snd (snd r)"
  proof
    assume eq: "fails' SelectAnomaly = fails SelectAnomaly"
    have "existing_anomalies fails' now deviceId ty s = existing_anomalies fails now deviceId ty s" for ty
      using eq by (simp add: existing_anomalies_def)
    then show "snd (snd (telemetry stringify HMAC_KEY fails' now pl s)) = snd (snd r)"
      using assms(1-3) unfolding assms(4) by (simp add: telemetry_calls)
  qed
  from a b c d show ?thesis by simp
qed

theorem secondary_failures_recovered_witness:
  "location_fault InsertLocation = Some ''connection reset''
   \<and> telemetry toy_stringify None location_fault 5000000 fix_report empty_db =
       (Response 200 (TelemetryOk (js ''c1'') 5000000),
        empty_db\<lparr>device_status := [js ''c1'' \<mapsto> statusUpdate 5000000 fix_report]\<rparr>,
        [UpsertStatus, InsertLocation])
   \<and> snd (snd (telemetry toy_stringify None no_faults 5000000 fix_report empty_db))
       = [UpsertStatus, InsertLocation]
   \<and> length (locations (fst (snd (telemetry toy_stringify None no_faults 5000000 fix_report empty_db)))) = 1"
  using secondary_failures_recovered [of fix_report "js ''c1''" toy_stringify None _ location_fault
      5000000 empty_db no_faults, OF _ _ _ refl]
  by (simp add: telemetry_def verifyHMAC_def fix_report_def bare_report_def js_def member_def
      truthy_str_def truthy_bool_def truthy_num_def upsert_status_def insert_location_def
      record_scratch_def record_anomaly_def no_faults_def location_fault_def empty_db_def)

section \<open>Anomaly deduplication\<close>

lemma div_le_general:
  fixes d t n :: int
  assumes "0 < n"
  shows "d * n \<le> t \<longleftrightarrow> d \<le> t div n"
proof
  assume "d * n \<le> t"
  then have "(d * n) div n \<le> t div n" using assms by (rule zdiv_mono1)
  then show "d \<le> t div n" using assms by simp
next
  assume "d \<le> t div n"
  then have "d * n \<le> (t div n) * n" using assms by (simp add: mult_right_mono)
  also have "\<dots> \<le> t"
  proof -
    have "t = (t div n) * n + t mod n" by simp
    moreover have "0 \<le> t mod n" using assms by simp
    ultimately show ?thesis by linarith
  qed
  finally show "d * n \<le> t" .
qed

lemma day_start_le: "iso_date now * 86400000 \<le> t \<longleftrightarrow> iso_date now \<le> iso_date t"
  unfolding iso_date_def by (rule div_le_general) simp

lemma telemetry_log:
  assumes "p_device_id pl = Some deviceId" and "deviceId \<noteq> []"
    and "verifyHMAC stringify HMAC_KEY pl (p_signature pl)"
  shows "anomaly_log (fst (snd (telemetry stringify HMAC_KEY fails now pl s))) =
           anomaly_log (fst (record_anomaly fails now deviceId pl (s, [])))"
proof -
  obtain s1 c1 where 1: "upsert_status fails now deviceId pl (s, []) = (s1, c1)"
    by (cases "upsert_status fails now deviceId pl (s, [])")
  obtain s2 c2 where 2: "insert_location fails deviceId pl (s1, c1) = (s2, c2)"
    by (cases "insert_location fails deviceId pl (s1, c1)")
  obtain s3 c3 where 3: "record_scratch fails now deviceId pl (s2, c2) = (s3, c3)"
    by (cases "record_scratch fails now deviceId pl (s2, c2)")
  have l1: "anomaly_log s1 = anomaly_log s"
    using upsert_status_log [of fails now deviceId pl s "[]"] 1 by simp
  have l2: "anomaly_log s2 = anomaly_log s1"
    using insert_location_log [of fails deviceId pl s1 c1] 2 by simp
  have l3: "anomaly_log s3 = anomaly_log s2"
    using record_scratch_log [of fails now deviceId pl s2 c2] 3 by simp
  have l: "anomaly_log s3 = anomaly_log s" by (simp add: l1 l2 l3)
  have e: "existing_anomalies fails now deviceId ty s3 = existing_anomalies fails now deviceId ty s" for ty
    by (rule existing_anomalies_cong) (simp_all add: l)
  have "anomaly_log (fst (record_anomaly fails now deviceId pl (s3, c3))) =
        anomaly_log (fst (record_anomaly fails now deviceId pl (s, [])))"
    by (simp add: record_anomaly_def e l Let_def split: option.splits)
  then show ?thesis
    using assms by (simp add: telemetry_accepted 1 2 3)
qed

text \<open>What one accepted report that flags an anomaly of type \<open>ty\<close> does to the log,
  when the query and the insert succeed.\<close>

lemma record_anomaly_log:
  assumes "member (p_health pl) health_anomaly = Some True"
    and "member (p_health pl) health_anomaly_type = Some ty"
    and "fails SelectAnomaly = None" and "fails InsertAnomaly = None"
  shows "anomaly_log (fst (record_anomaly fails now deviceId pl (s, calls))) =
           (if \<exists>r \<in> set (anomaly_log s). an_device_id r = deviceId \<and> an_anomaly_type r = Some ty
                  \<and> iso_date now \<le> iso_date (an_detected_at r)
            then anomaly_log s
            else anomaly_log s @
                   [\<lparr>an_device_id = deviceId, an_anomaly_type = Some ty, an_detected_at = now\<rparr>])"
proof -
  let ?hit = "\<lambda>r. an_device_id r = deviceId \<and> Some ty \<noteq> None \<and> an_anomaly_type r = Some ty
                  \<and> iso_date now * 86400000 \<le> an_detected_at r"
  have "(take 1 (filter ?hit (anomaly_log s)) = []) = (filter ?hit (anomaly_log s) = [])"
    by (cases "filter ?hit (anomaly_log s)") simp_all
  also have "\<dots> = (\<not> (\<exists>r \<in> set (anomaly_log s). an_device_id r = deviceId
                   \<and> an_anomaly_type r = Some ty \<and> iso_date now \<le> iso_date (an_detected_at r)))"
    by (auto simp add: filter_empty_conv day_start_le)
  finally show ?thesis
    using assms by (simp add: record_anomaly_def existing_anomalies_def truthy_bool_def Let_def)
qed

lemma anomaly_keys_append: "anomaly_keys (rows @ rest) = anomaly_keys rows @ anomaly_keys rest"
  by (simp add: anomaly_keys_def)

lemma anomaly_keys_member:
  "(d, ty, day) \<in> set (anomaly_keys rows) \<longleftrightarrow>
     (\<exists>r \<in> set rows. an_device_id r = d \<and> an_anomaly_type r = Some ty
        \<and> iso_date (an_detected_at r) = day)"
  by (induction rows) (auto simp add: anomaly_keys_def split: option.splits)

text \<open>The deduplication keeps the invariant whenever its query succeeds.\<close>

lemma record_anomaly_deduplicated:
  assumes "fails SelectAnomaly = None"
    and "deduplicated (anomaly_log s)"
  shows "deduplicated (anomaly_log (fst (record_anomaly fails now deviceId pl (s, calls))))"
proof (cases "truthy_bool (member (p_health pl) health_anomaly) \<and> fails InsertAnomaly = None")
  case False
  then show ?thesis
    using assms(2) by (auto simp add: record_anomaly_def Let_def split: option.splits)
next
  case True
  then have flag: "member (p_health pl) health_anomaly = Some True" and ins: "fails InsertAnomaly = None"
    by (auto simp add: truthy_bool_def split: option.splits)
  show ?thesis
  proof (cases "member (p_health pl) health_anomaly_type")
    case None
    have "anomaly_keys [\<lparr>an_device_id = deviceId, an_anomaly_type = None, an_detected_at = now\<rparr>] = []"
      by (simp add: anomaly_keys_def)
    then show ?thesis
      using assms None
      by (auto simp add: record_anomaly_def Let_def deduplicated_def anomaly_keys_append
          split: option.splits)
  next
    case (Some ty)
    have new: "anomaly_keys [\<lparr>an_device_id = deviceId, an_anomaly_type = Some ty, an_detected_at = now\<rparr>]
                 = [(deviceId, ty, iso_date now)]"
      by (simp add: anomaly_keys_def)
    show ?thesis
      unfolding record_anomaly_log [OF flag Some assms(1) ins]
      using assms(2)
      by (auto simp add: deduplicated_def anomaly_keys_append new anomaly_keys_member)
  qed
qed

lemma telemetry_deduplicated:
  assumes "fails SelectAnomaly = None"
    and "deduplicated (anomaly_log s)"
  shows "deduplicated (anomaly_log (fst (snd (telemetry stringify HMAC_KEY fails now pl s))))"
proof (cases "\<exists>deviceId. p_device_id pl = Some deviceId \<and> deviceId \<noteq> []
                \<and> verifyHMAC stringify HMAC_KEY pl (p_signature pl)")
  case True
  then obtain deviceId where "p_device_id pl = Some deviceId" "deviceId \<noteq> []"
      "verifyHMAC stringify HMAC_KEY pl (p_signature pl)"
    by blast
  then show ?thesis
    using assms by (simp add: telemetry_log record_anomaly_deduplicated)
next
  case False
  then show ?thesis
    using assms(2) by (auto simp add: telemetry_def split: option.splits)
qed

text \<open>
  Claim C2, as amended. In the gateway of version 6.0, with the store answering the
  query and the insert, and no entry of the device and type dated today or later at the
  start: of two accepted reports that flag the same anomaly type for the same device
  on the same calendar day the first inserts an AnomalyLogEntry and the second inserts
  none, and a third report on the next calendar day inserts a second entry; each of
  the two days then holds exactly one entry. The three reports keep the invariant of
  at most one entry per device, anomaly type and calendar day.
\<close>

theorem anomaly_dedup:
  assumes "p_device_id p1 = Some deviceId" and "p_device_id p2 = Some deviceId"
    and "p_device_id p3 = Some deviceId" and "deviceId \<noteq> []"
    and "verifyHMAC stringify HMAC_KEY p1 (p_signature p1)"
    and "verifyHMAC stringify HMAC_KEY p2 (p_signature p2)"
    and "verifyHMAC stringify HMAC_KEY p3 (p_signature p3)"
    and "member (p_health p1) health_anomaly = Some True"
    and "member (p_health p2) health_anomaly = Some True"
    and "member (p_health p3) health_anomaly = Some True"
    and "member (p_health p1) health_anomaly_type = Some ty"
    and "member (p_health p2) health_anomaly_type = Some ty"
    and "member (p_health p3) health_anomaly_type = Some ty"
    and "f1 SelectAnomaly = None" and "f1 InsertAnomaly = None"
    and "f2 SelectAnomaly = None" and "f2 InsertAnomaly = None"
    and "f3 SelectAnomaly = None" and "f3 InsertAnomaly = None"
    and "iso_date t2 = iso_date t1" and "iso_date t3 = iso_date t1 + 1"
    and "\<forall>r \<in> set (anomaly_log s0). an_device_id r = deviceId \<and> an_anomaly_type r = Some ty
           \<longrightarrow> iso_date (an_detected_at r) < iso_date t1"
    and "s1 = fst (snd (telemetry stringify HMAC_KEY f1 t1 p1 s0))"
    and "s2 = fst (snd (telemetry stringify HMAC_KEY f2 t2 p2 s1))"
    and "s3 = fst (snd (telemetry stringify HMAC_KEY f3 t3 p3 s2))"
  shows "anomaly_log s1 = anomaly_log s0 @
           [\<lparr>an_device_id = deviceId, an_anomaly_type = Some ty, an_detected_at = t1\<rparr>]
       \<and> anomaly_log s2 = anomaly_log s1
       \<and> anomaly_log s3 = anomaly_log s2 @
           [\<lparr>an_device_id = deviceId, an_anomaly_type = Some ty, an_detected_at = t3\<rparr>]
       \<and> entries_on deviceId ty (iso_date t1) (anomaly_log s3) =
           [\<lparr>an_device_id = deviceId, an_anomaly_type = Some ty, an_detected_at = t1\<rparr>]
       \<and> entries_on deviceId ty (iso_date t3) (anomaly_log s3) =
           [\<lparr>an_device_id = deviceId, an_anomaly_type = Some ty, an_detected_at = t3\<rparr>]
       \<and> (deduplicated (anomaly_log s0) \<longrightarrow> deduplicated (anomaly_log s3))"
proof -
  let ?row = "\<lambda>t. \<lparr>an_device_id = deviceId, an_anomaly_type = Some ty, an_detected_at = t\<rparr>"
  have old: "filter (\<lambda>r. an_device_id r = deviceId \<and> an_anomaly_type r = Some ty
                  \<and> iso_date (an_detected_at r) = d) (anomaly_log s0) = []"
    if "iso_date t1 \<le> d" for d
    using assms(22) that by (auto simp add: filter_empty_conv)
  have a: "anomaly_log s1 = anomaly_log s0 @ [?row t1]"
    unfolding assms(23) telemetry_log [OF assms(1) assms(4) assms(5)]
      record_anomaly_log [OF assms(8) assms(11) assms(14) assms(15)]
    using assms(22) by auto
  have b: "anomaly_log s2 = anomaly_log s1"
    unfolding assms(24) telemetry_log [OF assms(2) assms(4) assms(6)]
      record_anomaly_log [OF assms(9) assms(12) assms(16) assms(17)]
    using assms(20) by (auto simp add: a)
  have c: "anomaly_log s3 = anomaly_log s2 @ [?row t3]"
    unfolding assms(25) telemetry_log [OF assms(3) assms(4) assms(7)]
      record_anomaly_log [OF assms(10) assms(13) assms(18) assms(19)]
    using assms(21) assms(22) by (auto simp add: a b)
  have d: "entries_on deviceId ty (iso_date t1) (anomaly_log s3) = [?row t1]"
    using assms(21) by (simp add: entries_on_def a b c old)
  have e: "entries_on deviceId ty (iso_date t3) (anomaly_log s3) = [?row t3]"
    using assms(21) by (simp add: entries_on_def a b c old)
  have f: "deduplicated (anomaly_log s0) \<longrightarrow> deduplicated (anomaly_log s3)"
    unfolding assms(23-25)
    by (simp add: telemetry_deduplicated assms(14) assms(16) assms(18))
  from a b c d e f show ?thesis by simp
qed

theorem anomaly_dedup_witness:
  "iso_date 1699913600000 = 19674 \<and> iso_date 1700000000000 = 19675
   \<and> iso_date 1700003600000 = 19675 \<and> iso_date 1700086400000 = 19676
   \<and> anomaly_log (fst (snd (telemetry toy_stringify None no_faults 1700003600000 anomaly_report
        (fst (snd (telemetry toy_stringify None no_faults 1700000000000 anomaly_report used_db))))))
      = anomaly_log used_db @
        [\<lparr>an_device_id = js ''c1'', an_anomaly_type = Some (js ''fever''),
           an_detected_at = 1700000000000\<rparr>]
   \<and> anomaly_log (fst (snd (telemetry toy_stringify None no_faults 1700086400000 anomaly_report
        (fst (snd (telemetry toy_stringify None no_faults 1700003600000 anomaly_report
          (fst (snd (telemetry toy_stringify None no_faults 1700000000000 anomaly_report used_db)))))))))
      = anomaly_log used_db @
        [\<lparr>an_device_id = js ''c1'', an_anomaly_type = Some (js ''fever''),
           an_detected_at = 1700000000000\<rparr>,
         \<lparr>an_device_id = js ''c1'', an_anomaly_type = Some (js ''fever''),
           an_detected_at = 1700086400000\<rparr>]
   \<and> deduplicated (anomaly_log (fst (snd (telemetry toy_stringify None no_faults 1700086400000 anomaly_report
        (fst (snd (telemetry toy_stringify None no_faults 1700003600000 anomaly_report
          (fst (snd (telemetry toy_stringify None no_faults 1700000000000 anomaly_report used_db))))))))))"
proof -
  have days: "iso_date 1699913600000 = 19674" "iso_date 1700000000000 = 19675"
      "iso_date 1700003600000 = 19675" "iso_date 1700086400000 = 19676"
    by (simp_all add: iso_date_def)
  have report: "p_device_id anomaly_report = Some (js ''c1'')" "js ''c1'' \<noteq> []"
      "verifyHMAC toy_stringify None anomaly_report (p_signature anomaly_report)"
      "member (p_health anomaly_report) health_anomaly = Some True"
      "member (p_health anomaly_report) health_anomaly_type = Some (js ''fever'')"
    by (simp_all add: anomaly_report_def bare_report_def js_def verifyHMAC_def truthy_str_def
        member_def)
  have start: "\<forall>r \<in> set (anomaly_log used_db). an_device_id r = js ''c1''
      \<and> an_anomaly_type r = Some (js ''fever'') \<longrightarrow> iso_date (an_detected_at r) < iso_date 1700000000000"
    by (simp add: used_db_def empty_db_def days)
  have inv: "deduplicated (anomaly_log used_db)"
    by (simp add: used_db_def empty_db_def deduplicated_def anomaly_keys_def)
  have ok: "no_faults SelectAnomaly = None" "no_faults InsertAnomaly = None"
    by (simp_all add: no_faults_def)
  have "iso_date 1700003600000 = iso_date 1700000000000"
       "iso_date 1700086400000 = iso_date 1700000000000 + 1"
    by (simp_all add: days)
  from anomaly_dedup [OF report(1) report(1) report(1) report(2) report(3) report(3) report(3)
      report(4) report(4) report(4) report(5) report(5) report(5) ok ok ok this start
      refl refl refl] inv
  show ?thesis
    by (simp add: days) (simp add: used_db_def empty_db_def deduplicated_def anomaly_keys_def
        js_def days)
qed

text \<open>
  The gateway of version 6.1 has no such check. Two reports of one device that flag
  the same anomaly type on the same day leave two entries.
\<close>

theorem anomaly_not_deduplicated_v61:
  "anomaly_log (fst (snd (telemetry_v61 [] True no_faults 1700003600000 anomaly_report_v61
      (fst (snd (telemetry_v61 [] True no_faults 1700000000000 anomaly_report_v61 empty_db_v61))))))
     = [\<lparr>an_device_id = js ''c1'', an_anomaly_type = Some (js ''fever''),
          an_detected_at = 1700000000000\<rparr>,
        \<lparr>an_device_id = js ''c1'', an_anomaly_type = Some (js ''fever''),
          an_detected_at = 1700003600000\<rparr>]
   \<and> iso_date 1700003600000 = iso_date 1700000000000
   \<and> \<not> deduplicated (anomaly_log (fst (snd (telemetry_v61 [] True no_faults 1700003600000 anomaly_report_v61
      (fst (snd (telemetry_v61 [] True no_faults 1700000000000 anomaly_report_v61 empty_db_v61)))))))"
  by (simp add: telemetry_v61_def anomaly_report_v61_def bare_report_v61_def js_def
      truthy_str_def truthy_bool_def truthy_num_def upsert_status_v61_def insert_location_v61_def
      insert_scratch_v61_def insert_anomaly_v61_def no_faults_def empty_db_v61_def
      deduplicated_def anomaly_keys_def iso_date_def)

end
